theory Spec2Isabelle
  imports Complex_Main "HOL-Library.Multiset" "HOL-Library.Sublist"
begin

section \<open>JavaScript values used by the server\<close>

text \<open>
  The model follows the first definition of each endpoint in \<open>server.js\<close>, the one with
  the validation, as it runs once the rate limiter has admitted the request. The fields
  the server reads from a format entry of the tool's JSON are either absent
  (\<open>undefined\<close>), \<open>null\<close>, or a value of one type: a string for \<open>format_id\<close>, \<open>ext\<close> and
  \<open>vcodec\<close>; a number for \<open>height\<close>, \<open>abr\<close>, \<open>filesize\<close> and \<open>filesize_approx\<close>. Numbers are
  exact rationals: every finite double is one, and the operations the server applies to
  them (comparison, division by 1024 of a value of at least 1024, the sign of a
  difference, \<open>toFixed\<close>) are exact on doubles.
\<close>

datatype 'a js = Undefined | Null | Val 'a

text \<open>\<open>!x\<close> is false exactly for a number other than 0.\<close>

fun truthy :: "'a::zero js \<Rightarrow> bool" where
  "truthy Undefined = False"
| "truthy Null = False"
| "truthy (Val x) = (x \<noteq> 0)"

text \<open>A string is truthy exactly when it is not empty.\<close>

fun truthy_str :: "string js \<Rightarrow> bool" where
  "truthy_str Undefined = False"
| "truthy_str Null = False"
| "truthy_str (Val s) = (s \<noteq> [])"

text \<open>\<open>String(x)\<close> for an optional string, as \<open>RegExp.prototype.test\<close> applies it.\<close>

fun to_string :: "string js \<Rightarrow> string" where
  "to_string Undefined = ''undefined''"
| "to_string Null = ''null''"
| "to_string (Val s) = s"

subsection \<open>Query parameters\<close>

text \<open>
  A key of \<open>req.query\<close> is absent, or a string, or, when the key is repeated or written
  with brackets, an array or an object of such values. Arrays and objects are truthy.
\<close>

datatype param = Str string | Arr "param list" | Obj "(string \<times> param) list"

fun truthy_param :: "param js \<Rightarrow> bool" where
  "truthy_param Undefined = False"
| "truthy_param Null = False"
| "truthy_param (Val (Str s)) = (s \<noteq> [])"
| "truthy_param (Val (Arr xs)) = True"
| "truthy_param (Val (Obj kvs)) = True"

fun join_comma :: "string list \<Rightarrow> string" where
  "join_comma [] = []"
| "join_comma [x] = x"
| "join_comma (x # y # ys) = x @ '','' @ join_comma (y # ys)"

text \<open>
  The conversion to a string that \<open>spawn\<close> applies to an argument: an array is its
  elements joined by commas.
\<close>

fun param_to_string :: "param \<Rightarrow> string" where
  "param_to_string (Str s) = s"
| "param_to_string (Arr xs) = join_comma (map param_to_string xs)"
| "param_to_string (Obj kvs) = ''[object Object]''"

subsection \<open>Decimal rendering\<close>

definition digit :: "nat \<Rightarrow> char" where
  "digit d = ''0123456789'' ! d"

fun show_nat :: "nat \<Rightarrow> string" where
  "show_nat n = (if n < 10 then [digit n] else show_nat (n div 10) @ [digit (n mod 10)])"

declare show_nat.simps [simp del]

definition show_int :: "int \<Rightarrow> string" where
  "show_int k = (if k < 0 then ''-'' @ show_nat (nat (- k)) else show_nat (nat k))"

text \<open>
  \<open>Number::toString\<close>: an integer of magnitude up to \<open>2^53\<close> is its decimal digits. The
  rendering of the other numbers (a fraction, the shortest digits of a larger double,
  exponent notation from \<open>10^21\<close> on) is specific to doubles and is the parameter
  \<open>toString\<close>.
\<close>

definition number_to_string :: "(rat \<Rightarrow> string) \<Rightarrow> rat \<Rightarrow> string" where
  "number_to_string toString x =
     (if of_int \<lfloor>x\<rfloor> = x \<and> \<bar>x\<bar> \<le> 2 ^ 53 then show_int \<lfloor>x\<rfloor> else toString x)"

text \<open>
  \<open>Number.prototype.toFixed(2)\<close>, following ECMA-262: the sign is split off; a value of at
  least \<open>10^21\<close> is rendered by \<open>Number::toString\<close>; otherwise \<open>n\<close> is the integer nearest
  to \<open>100 * x\<close>, the larger one at a tie, its digits are padded with zeros to three
  characters and the point is put before the last two.
\<close>

definition toFixed2 :: "(rat \<Rightarrow> string) \<Rightarrow> rat \<Rightarrow> string" where
  "toFixed2 toString x =
     (let s = (if x < 0 then ''-'' else '''');
          y = (if x < 0 then - x else x)
      in if y \<ge> 10 ^ 21 then s @ number_to_string toString y
         else
           let n = nat \<lfloor>y * 100 + 1 / 2\<rfloor>;
               m = show_nat n;
               k = length m;
               m = (if k \<le> 2 then replicate (2 + 1 - k) CHR ''0'' @ m else m);
               k = length m
           in s @ take (k - 2) m @ ''.'' @ drop (k - 2) m)"

section \<open>formatBytes\<close>

definition units :: "string list" where
  "units = [''B'', ''KB'', ''MB'', ''GB'']"

text \<open>The \<open>while\<close> loop of \<open>formatBytes\<close>, on the pair of its two variables.\<close>

function scale_loop :: "rat \<Rightarrow> nat \<Rightarrow> rat \<times> nat" where
  "scale_loop bytes i =
     (if bytes \<ge> 1024 \<and> i < length units - 1 then scale_loop (bytes / 1024) (i + 1)
      else (bytes, i))"
  by pat_completeness auto
termination
  by (relation "measure (\<lambda>(bytes, i). length units - 1 - i)") auto

declare scale_loop.simps [simp del]

definition formatBytes :: "(rat \<Rightarrow> string) \<Rightarrow> rat js \<Rightarrow> string js" where
  "formatBytes toString bytes =
     (if \<not> truthy bytes then Null
      else case bytes of
             Val b \<Rightarrow> (case scale_loop b 0 of (b', i) \<Rightarrow> Val (toFixed2 toString b' @ '' '' @ units ! i))
           | _ \<Rightarrow> Null)"

text \<open>
  What the specification calls "rounded to two decimal places": the sign of a negative
  value, then the integer part, a point, and two digits, of the magnitude rounded to the
  nearest hundredth (a tie goes away from zero).
\<close>

definition two_decimals :: "rat \<Rightarrow> string" where
  "two_decimals x =
     (let n = nat \<lfloor>\<bar>x\<bar> * 100 + 1 / 2\<rfloor>
      in (if x < 0 then ''-'' else '''')
         @ show_nat (n div 100) @ ''.'' @ [digit (n div 10 mod 10), digit (n mod 10)])"

section \<open>Format entries and their selection\<close>

text \<open>One entry of \<open>json.formats\<close>, with the fields the inspect handler reads.\<close>

record format =
  format_id :: "string js"
  ext :: "string js"
  vcodec :: "string js"
  height :: "rat js"
  abr :: "rat js"
  filesize :: "rat js"
  filesize_approx :: "rat js"

text \<open>
  The regular expressions of the server are alternations of plain ASCII words with the
  flag \<open>i\<close> and no anchor: \<open>test\<close> succeeds when some alternative occurs at some position
  of the string, letters compared without case. Only the case of ASCII letters matters
  for such patterns.
\<close>

definition canonicalize :: "char \<Rightarrow> char" where
  "canonicalize c =
     (case map_of (zip ''abcdefghijklmnopqrstuvwxyz'' ''ABCDEFGHIJKLMNOPQRSTUVWXYZ'') c of
        Some u \<Rightarrow> u
      | None \<Rightarrow> c)"

definition match_here :: "string list \<Rightarrow> string \<Rightarrow> bool" where
  "match_here alts s = list_ex (\<lambda>a. prefix (map canonicalize a) (map canonicalize s)) alts"

fun regex_test :: "string list \<Rightarrow> string \<Rightarrow> bool" where
  "regex_test alts [] = match_here alts []"
| "regex_test alts (c # cs) = (match_here alts (c # cs) \<or> regex_test alts cs)"

definition audio_entry :: "format \<Rightarrow> bool" where
  "audio_entry f \<longleftrightarrow>
     vcodec f = Val ''none'' \<and> regex_test [''m4a'', ''mp3'', ''opus''] (to_string (ext f))"

fun array_includes :: "rat list \<Rightarrow> rat js \<Rightarrow> bool" where
  "array_includes xs (Val h) = (h \<in> set xs)"
| "array_includes xs _ = False"

definition video_entry :: "format \<Rightarrow> bool" where
  "video_entry f \<longleftrightarrow>
     truthy_str (vcodec f) \<and> truthy (height f) \<and> array_includes [360, 480, 720, 1080] (height f)
     \<and> regex_test [''mp4'', ''webm''] (to_string (ext f))"

text \<open>
  \<open>f.height || 0\<close>, and the comparator \<open>(a, b) => (b.height || 0) - (a.height || 0)\<close>. Only
  the sign of the difference is used, and the difference of two doubles has the sign of
  the exact difference.
\<close>

definition height_or_0 :: "format \<Rightarrow> rat" where
  "height_or_0 f = (case height f of Val h \<Rightarrow> h | _ \<Rightarrow> 0)"

definition by_quality :: "format \<Rightarrow> format \<Rightarrow> rat" where
  "by_quality a b = height_or_0 b - height_or_0 a"

text \<open>
  \<open>Array.prototype.sort\<close> with a comparator: the sort is stable (ECMAScript 2019), so with
  a consistent comparator its result is the one of inserting each element, from the last
  to the first, in front of the first element it does not have to follow.
\<close>

fun insert_by :: "('a \<Rightarrow> 'a \<Rightarrow> rat) \<Rightarrow> 'a \<Rightarrow> 'a list \<Rightarrow> 'a list" where
  "insert_by cmp x [] = [x]"
| "insert_by cmp x (y # ys) = (if cmp x y \<le> 0 then x # y # ys else y # insert_by cmp x ys)"

definition js_sort :: "('a \<Rightarrow> 'a \<Rightarrow> rat) \<Rightarrow> 'a list \<Rightarrow> 'a list" where
  "js_sort cmp xs = foldr (insert_by cmp) xs []"

text \<open>The filter and the sort of the inspect handler, \<open>kind\<close> being the query parameter.\<close>

definition select_formats :: "param js \<Rightarrow> format list \<Rightarrow> format list" where
  "select_formats kind formats =
     js_sort by_quality
       (if kind = Val (Str ''yta'') then filter audio_entry formats
        else filter video_entry formats)"

text \<open>One entry of the response.\<close>

record cleaned_format =
  out_format_id :: "string js"
  out_ext :: "string js"
  resolution :: "string js"
  audio_bitrate :: "rat js"
  size_f :: "string js"

definition cleaned :: "(rat \<Rightarrow> string) \<Rightarrow> format \<Rightarrow> cleaned_format" where
  "cleaned toString f =
     \<lparr> out_format_id = format_id f,
       out_ext = ext f,
       resolution = (if truthy (height f)
                     then Val (number_to_string toString (height_or_0 f) @ ''p'') else Null),
       audio_bitrate = (if truthy (abr f) then abr f else Null),
       size_f = formatBytes toString (if truthy (filesize f) then filesize f else filesize_approx f) \<rparr>"

subsection \<open>The words of the specification\<close>

text \<open>
  The text of an extension contains a word, letters compared without case.
\<close>

definition contains_word :: "string \<Rightarrow> string \<Rightarrow> bool" where
  "contains_word w s \<longleftrightarrow> sublist (map canonicalize w) (map canonicalize s)"

text \<open>
  The tool marks an entry that has no video codec by the codec name "none"; an entry has
  a video codec when it names one.
\<close>

definition no_video_codec :: "format \<Rightarrow> bool" where
  "no_video_codec f \<longleftrightarrow> vcodec f = Val ''none''"


definition audio_like :: "format \<Rightarrow> bool" where
  "audio_like f \<longleftrightarrow>
     no_video_codec f \<and> list_ex (\<lambda>w. contains_word w (to_string (ext f))) [''m4a'', ''mp3'', ''opus'']"


text \<open>The order the sort aims at: no entry is followed by one of a greater height.\<close>

definition descending :: "format list \<Rightarrow> bool" where
  "descending fs \<longleftrightarrow> sorted_wrt (\<lambda>a b. height_or_0 b \<le> height_or_0 a) fs"

text \<open>
  How an entry of the response is read off the format entry it was made from: \<open>size\<close> from
  the exact file size, or from the approximate one when the exact one is absent, null or
  zero, and the three fields null exactly when their sources are absent, null or zero.
\<close>

definition absent_or_zero :: "rat js \<Rightarrow> bool" where
  "absent_or_zero x \<longleftrightarrow> x = Undefined \<or> x = Null \<or> x = Val 0"

definition read_off :: "(rat \<Rightarrow> string) \<Rightarrow> format \<Rightarrow> cleaned_format \<Rightarrow> bool" where
  "read_off toString f c \<longleftrightarrow>
     out_format_id c = format_id f \<and> out_ext c = ext f
     \<and> size_f c = (if absent_or_zero (filesize f) then formatBytes toString (filesize_approx f)
                   else formatBytes toString (filesize f))
     \<and> (size_f c = Null) = (absent_or_zero (filesize f) \<and> absent_or_zero (filesize_approx f))
     \<and> (audio_bitrate c = Null) = absent_or_zero (abr f)
     \<and> (resolution c = Null) = absent_or_zero (height f)"

section \<open>The subprocess runner\<close>

text \<open>
  \<open>runYtDlp\<close> registers callbacks and returns a promise. Node runs the callbacks one at a
  time, so a run of the runner is the sequence of the events that reach it: a chunk of
  the child's standard output or standard error, the child's \<open>close\<close> with its exit code
  (\<open>null\<close> when a signal ended it), and the timer of five minutes.
\<close>

datatype event = Stdout string | Stderr string | Close "int js" | Timeout

datatype settlement = Resolved string | Rejected string

record runner =
  out :: string
  err :: string
  timer_pending :: bool
  kill_sent :: bool
  child_closed :: bool
  promise :: "settlement option"

definition spawned :: runner where
  "spawned = \<lparr> out = [], err = [], timer_pending = True, kill_sent = False,
               child_closed = False, promise = None \<rparr>"

text \<open>\<open>resolve\<close> and \<open>reject\<close> settle a pending promise and leave a settled one as it is.\<close>

definition settle :: "settlement \<Rightarrow> runner \<Rightarrow> runner" where
  "settle r s = (if promise s = None then s\<lparr>promise := Some r\<rparr> else s)"

fun show_code :: "int js \<Rightarrow> string" where
  "show_code (Val c) = show_int c"
| "show_code Null = ''null''"
| "show_code Undefined = ''undefined''"

fun on_event :: "runner \<Rightarrow> event \<Rightarrow> runner" where
  "on_event s (Stdout d) = s\<lparr>out := out s @ d\<rparr>"
| "on_event s (Stderr d) = s\<lparr>err := err s @ d\<rparr>"
| "on_event s Timeout =
     (if timer_pending s
      then settle (Rejected ''Operation timed out'') (s\<lparr>timer_pending := False, kill_sent := True\<rparr>)
      else s)"
| "on_event s (Close code) =
     (let s' = s\<lparr>timer_pending := False, child_closed := True\<rparr>
      in if code = Val 0 then settle (Resolved (out s')) s'
         else settle (Rejected (if err s' \<noteq> [] then err s'
                                else ''Process exited with code '' @ show_code code)) s')"

definition runYtDlp :: "event list \<Rightarrow> runner" where
  "runYtDlp events = foldl on_event spawned events"

fun is_data :: "event \<Rightarrow> bool" where
  "is_data (Stdout d) = True"
| "is_data (Stderr d) = True"
| "is_data _ = False"

fun stdout_chunk :: "event \<Rightarrow> string" where
  "stdout_chunk (Stdout d) = d"
| "stdout_chunk _ = []"

fun stderr_chunk :: "event \<Rightarrow> string" where
  "stderr_chunk (Stderr d) = d"
| "stderr_chunk _ = []"

section \<open>The temp root and the sweeper\<close>

text \<open>
  The entries of \<open>os.tmpdir()\<close>, by name. An entry has its time of last modification in
  milliseconds and the names of the files in it. \<open>fs.statSync\<close> follows links and can
  fail on an entry that is listed (\<open>ENOENT\<close> on a link whose target is missing, \<open>EACCES\<close>),
  and \<open>fs.rmSync\<close> can fail on an entry that is there (\<open>EPERM\<close>, \<open>EACCES\<close>, \<open>EBUSY\<close>): an entry
  carries the error of each, if any.
\<close>

datatype errno = ENOENT | EACCES | EPERM | EBUSY

record entry =
  mtimeMs :: rat
  files :: "string list"
  stat_fails :: "errno option"
  rm_fails :: "errno option"

type_synonym tmpfs = "(string \<times> entry) list"

text \<open>An error of the file system: its code, the system call and the path.\<close>

datatype fs_error = Err errno string string

definition path_join :: "string \<Rightarrow> string \<Rightarrow> string" where
  "path_join a b = a @ ''/'' @ b"

definition MAX_FILE_AGE :: rat where
  "MAX_FILE_AGE = 1000 * 60 * 30"

definition readdirSync :: "tmpfs \<Rightarrow> string list" where
  "readdirSync fs = map fst fs"

definition statSync :: "string \<Rightarrow> tmpfs \<Rightarrow> string \<Rightarrow> fs_error + entry" where
  "statSync tmp fs f =
     (case map_of fs f of
        None \<Rightarrow> Inl (Err ENOENT ''stat'' (path_join tmp f))
      | Some e \<Rightarrow>
          (case stat_fails e of
             Some c \<Rightarrow> Inl (Err c ''stat'' (path_join tmp f))
           | None \<Rightarrow> Inr e))"

text \<open>
  \<open>fs.rmSync(p, {recursive: true, force: true})\<close>: with \<open>force\<close> a missing entry is not an
  error; any other failure is thrown.
\<close>

definition rmSync :: "string \<Rightarrow> tmpfs \<Rightarrow> string \<Rightarrow> fs_error + tmpfs" where
  "rmSync tmp fs f =
     (case map_of fs f of
        None \<Rightarrow> Inr fs
      | Some e \<Rightarrow>
          (case rm_fails e of
             Some c \<Rightarrow> Inl (Err c ''rm'' (path_join tmp f))
           | None \<Rightarrow> Inr (filter (\<lambda>(n, e). n \<noteq> f) fs)))"

text \<open>
  The body of \<open>forEach\<close>, over the names that passed the filter. An exception ends the
  sweep: the result is then the error with the temp root as it is at that moment.
  \<open>Date.now()\<close> is read for each entry; the model has one reading, \<open>now\<close>, for the whole
  sweep.
\<close>

fun sweep :: "string \<Rightarrow> rat \<Rightarrow> string list \<Rightarrow> tmpfs \<Rightarrow> (fs_error \<times> tmpfs) + tmpfs" where
  "sweep tmp now [] fs = Inr fs"
| "sweep tmp now (f # rest) fs =
     (case statSync tmp fs f of
        Inl e \<Rightarrow> Inl (e, fs)
      | Inr stat \<Rightarrow>
          if now - mtimeMs stat > MAX_FILE_AGE
          then (case rmSync tmp fs f of
                  Inl e \<Rightarrow> Inl (e, fs)
                | Inr fs' \<Rightarrow> sweep tmp now rest fs')
          else sweep tmp now rest fs)"

text \<open>
  \<open>cleanupTempFiles\<close> on the temp root at the path \<open>tmp\<close>, with what other processes do to
  it between the listing and the inspection of the entries as the parameter \<open>others\<close>.
\<close>

definition cleanupTempFiles_among ::
  "(tmpfs \<Rightarrow> tmpfs) \<Rightarrow> string \<Rightarrow> rat \<Rightarrow> tmpfs \<Rightarrow> (fs_error \<times> tmpfs) + tmpfs" where
  "cleanupTempFiles_among others tmp now fs =
     sweep tmp now (filter (prefix ''dl-'') (readdirSync fs)) (others fs)"

definition cleanupTempFiles :: "string \<Rightarrow> rat \<Rightarrow> tmpfs \<Rightarrow> (fs_error \<times> tmpfs) + tmpfs" where
  "cleanupTempFiles tmp now fs = cleanupTempFiles_among (\<lambda>fs. fs) tmp now fs"

text \<open>
  An entry is old enough at the time \<open>now\<close> when its age exceeds the retention window. The
  sweep can deal with an entry when \<open>fs.statSync\<close> does not fail on it and, if it is old
  enough, \<open>fs.rmSync\<close> does not fail on it.
\<close>

definition old_enough :: "rat \<Rightarrow> entry \<Rightarrow> bool" where
  "old_enough now e \<longleftrightarrow> now - mtimeMs e > MAX_FILE_AGE"

definition sweepable :: "rat \<Rightarrow> entry \<Rightarrow> bool" where
  "sweepable now e \<longleftrightarrow> stat_fails e = None \<and> (old_enough now e \<longrightarrow> rm_fails e = None)"

text \<open>
  The words of the specification for an entry the sweep has to delete: its name starts
  with the prefix and its age exceeds 30 minutes.
\<close>

definition stale :: "rat \<Rightarrow> string \<times> entry \<Rightarrow> bool" where
  "stale now ne \<longleftrightarrow> prefix ''dl-'' (fst ne) \<and> now - mtimeMs (snd ne) > 30 * 60 * 1000"

section \<open>The two endpoints\<close>

text \<open>
  What the handlers take from outside the repository is a parameter: the validator
  library's \<open>isURL\<close> on a string (with its options \<open>protocols\<close> and \<open>host_whitelist\<close>),
  \<open>Number::toString\<close>, \<open>JSON.parse\<close> restricted to the fields read (\<open>Inl\<close> carries the
  message of the exception), the events of the child process started with an argument
  list and what the child does to the temp root, the path of the temp root, and the six
  characters \<open>mkdtempSync\<close> appends.
\<close>

record video_json =
  title :: "string js"
  thumbnail :: "string js"
  duration_string :: "string js"
  formats :: "format list js"

record env =
  isURL :: "string \<Rightarrow> string list \<Rightarrow> string list \<Rightarrow> bool"
  toString :: "rat \<Rightarrow> string"
  json_parse :: "string \<Rightarrow> string + video_json"
  child_events :: "string list \<Rightarrow> event list"
  child_writes :: "string list \<Rightarrow> tmpfs \<Rightarrow> tmpfs"
  tmpdir :: string
  mkdtemp_suffix :: string

record query =
  q_url :: "param js"
  q_format_id :: "param js"
  q_kind :: "param js"

record inspection =
  i_title :: "string js"
  i_thumbnail :: "string js"
  i_duration :: "string js"
  i_formats :: "cleaned_format list"

datatype body = Failure string | Success inspection

text \<open>
  A response is a status with a JSON body, or the file sent by \<open>res.download\<close>; \<open>Pending\<close>
  is the request whose awaited promise is not settled.
\<close>

datatype response = Json nat body | Download string string | Pending

record reply =
  response :: response
  invocations :: "string list list"

text \<open>
  The reply of the download handler has the temp root it leaves, and the exception, if
  any, that escapes the callback of \<open>res.download\<close> after the response.
\<close>

record download_reply = reply +
  tmp_after :: tmpfs
  uncaught :: "fs_error option"

text \<open>
  \<open>validator.isURL\<close> starts with \<open>assertString\<close>, which throws a \<open>TypeError\<close> on an argument
  that is not a string; \<open>Inl\<close> carries its message.
\<close>

fun isValidYouTubeUrl :: "env \<Rightarrow> param js \<Rightarrow> string + bool" where
  "isValidYouTubeUrl E (Val (Str url)) =
     Inr (isURL E url [''http'', ''https''] [''www.youtube.com'', ''youtube.com'', ''youtu.be''])"
| "isValidYouTubeUrl E (Val (Arr xs)) = Inl ''Expected a string but received a Array''"
| "isValidYouTubeUrl E (Val (Obj kvs)) = Inl ''Expected a string but received a Object''"
| "isValidYouTubeUrl E Null = Inl ''Expected a string but received a null''"
| "isValidYouTubeUrl E Undefined = Inl ''Expected a string but received a undefined''"

text \<open>An element of the argument list of \<open>spawn\<close>, as a string.\<close>

fun arg_string :: "param js \<Rightarrow> string" where
  "arg_string (Val p) = param_to_string p"
| "arg_string Null = ''null''"
| "arg_string Undefined = ''undefined''"

text \<open>\<open>const { kind = "ytv" } = req.query\<close>.\<close>

definition kind_of :: "query \<Rightarrow> param js" where
  "kind_of req = (if q_kind req = Undefined then Val (Str ''ytv'') else q_kind req)"

text \<open>\<open>json.formats || []\<close>.\<close>

definition formats_or_empty :: "video_json \<Rightarrow> format list" where
  "formats_or_empty json = (case formats json of Val fs \<Rightarrow> fs | _ \<Rightarrow> [])"

definition inspect_args :: "query \<Rightarrow> string list" where
  "inspect_args req = [''-J'', arg_string (q_url req)]"

definition inspect :: "env \<Rightarrow> query \<Rightarrow> reply" where
  "inspect E req =
     (let url = q_url req;
          kind = kind_of req
      in if \<not> truthy_param url
         then \<lparr> response = Json 400 (Failure ''Valid YouTube URL is required''),
                invocations = [] \<rparr>
         else
           (case isValidYouTubeUrl E url of
              Inl m \<Rightarrow>
                \<lparr> response = Json 500 (Failure (''Failed to inspect video: '' @ m)),
                  invocations = [] \<rparr>
            | Inr False \<Rightarrow>
                \<lparr> response = Json 400 (Failure ''Valid YouTube URL is required''),
                  invocations = [] \<rparr>
            | Inr True \<Rightarrow>
                \<lparr> response =
                    (case promise (runYtDlp (child_events E (inspect_args req))) of
                       None \<Rightarrow> Pending
                     | Some (Rejected m) \<Rightarrow>
                         Json 500 (Failure (''Failed to inspect video: '' @ m))
                     | Some (Resolved info) \<Rightarrow>
                         (case json_parse E info of
                            Inl m \<Rightarrow> Json 500 (Failure (''Failed to inspect video: '' @ m))
                          | Inr json \<Rightarrow>
                              Json 200 (Success
                                \<lparr> i_title = title json,
                                  i_thumbnail = thumbnail json,
                                  i_duration = duration_string json,
                                  i_formats =
                                    map (cleaned (toString E))
                                      (select_formats kind (formats_or_empty json)) \<rparr>))),
                  invocations = [inspect_args req] \<rparr>))"

text \<open>\<open>fs.readdirSync(tmpDir)\<close> on the directory of one download.\<close>

definition readdirSync_in :: "string \<Rightarrow> tmpfs \<Rightarrow> string \<Rightarrow> fs_error + string list" where
  "readdirSync_in tmp fs d =
     (case map_of fs d of
        None \<Rightarrow> Inl (Err ENOENT ''scandir'' (path_join tmp d))
      | Some e \<Rightarrow> Inr (files e))"

fun errno_text :: "errno \<Rightarrow> string" where
  "errno_text ENOENT = ''ENOENT: no such file or directory''"
| "errno_text EACCES = ''EACCES: permission denied''"
| "errno_text EPERM = ''EPERM: operation not permitted''"
| "errno_text EBUSY = ''EBUSY: resource busy or locked''"

text \<open>The message of the error: the text of the code, the system call, the quoted path.\<close>

fun message :: "fs_error \<Rightarrow> string" where
  "message (Err c syscall p) = errno_text c @ '', '' @ syscall @ '' '' @ [CHR 0x27] @ p @ [CHR 0x27]"

text \<open>
  The directory \<open>mkdtempSync\<close> creates in the temp root, and the argument list of the
  download.
\<close>

definition download_dir :: "env \<Rightarrow> string" where
  "download_dir E = ''dl-'' @ mkdtemp_suffix E"

definition download_args :: "env \<Rightarrow> query \<Rightarrow> string list" where
  "download_args E req =
     (let kind = kind_of req;
          tmpDir = path_join (tmpdir E) (download_dir E);
          outPath = path_join tmpDir ''%(title).200B.%(ext)s''
      in [''-f'', arg_string (q_format_id req),
          ''--no-playlist'',
          ''--merge-output-format'', if kind = Val (Str ''yta'') then ''m4a'' else ''mp4'',
          ''-o'', outPath,
          arg_string (q_url req)])"

text \<open>
  The download handler at time \<open>now\<close> on the temp root \<open>fs\<close>. The temp root of the reply
  is the one after the callback of \<open>res.download\<close> has run.
\<close>

definition download :: "env \<Rightarrow> rat \<Rightarrow> query \<Rightarrow> tmpfs \<Rightarrow> download_reply" where
  "download E now req fs =
     (let url = q_url req;
          format_id = q_format_id req
      in if \<not> truthy_param url \<or> \<not> truthy_param format_id
         then \<lparr> response = Json 400 (Failure ''Valid YouTube URL and format_id are required''),
                invocations = [], tmp_after = fs, uncaught = None \<rparr>
         else
           (case isValidYouTubeUrl E url of
              Inl m \<Rightarrow>
                \<lparr> response = Json 500 (Failure (''Download failed: '' @ m)),
                  invocations = [], tmp_after = fs, uncaught = None \<rparr>
            | Inr False \<Rightarrow>
                \<lparr> response = Json 400 (Failure ''Valid YouTube URL and format_id are required''),
                  invocations = [], tmp_after = fs, uncaught = None \<rparr>
            | Inr True \<Rightarrow>
                (let tmpDir = path_join (tmpdir E) (download_dir E);
                     fs1 = fs @ [(download_dir E,
                                  \<lparr> mtimeMs = now, files = [], stat_fails = None, rm_fails = None \<rparr>)];
                     args = download_args E req;
                     fs2 = child_writes E args fs1
                 in case promise (runYtDlp (child_events E args)) of
                      None \<Rightarrow>
                        \<lparr> response = Pending, invocations = [args], tmp_after = fs2,
                          uncaught = None \<rparr>
                    | Some (Rejected m) \<Rightarrow>
                        \<lparr> response = Json 500 (Failure (''Download failed: '' @ m)),
                          invocations = [args], tmp_after = fs2, uncaught = None \<rparr>
                    | Some (Resolved info) \<Rightarrow>
                        (case readdirSync_in (tmpdir E) fs2 (download_dir E) of
                           Inl e \<Rightarrow>
                             \<lparr> response = Json 500 (Failure (''Download failed: '' @ message e)),
                               invocations = [args], tmp_after = fs2, uncaught = None \<rparr>
                         | Inr [] \<Rightarrow>
                             \<lparr> response =
                                 Json 500 (Failure ''Download failed: No file was downloaded''),
                               invocations = [args], tmp_after = fs2, uncaught = None \<rparr>
                         | Inr (file # others) \<Rightarrow>
                             (case rmSync (tmpdir E) fs2 (download_dir E) of
                                Inr fs3 \<Rightarrow>
                                  \<lparr> response = Download (path_join tmpDir file) file,
                                    invocations = [args], tmp_after = fs3, uncaught = None \<rparr>
                              | Inl e \<Rightarrow>
                                  \<lparr> response = Download (path_join tmpDir file) file,
                                    invocations = [args], tmp_after = fs2,
                                    uncaught = Some e \<rparr>)))))"

text \<open>
  The tool returns \<open>json\<close> to the inspect request: the url is one the validator accepts,
  the child exits with status zero before the timeout, and its output parses to \<open>json\<close>.
\<close>

definition tool_returns :: "env \<Rightarrow> query \<Rightarrow> video_json \<Rightarrow> bool" where
  "tool_returns E req json \<longleftrightarrow>
     truthy_param (q_url req) \<and> isValidYouTubeUrl E (q_url req) = Inr True
     \<and> (case promise (runYtDlp (child_events E (inspect_args req))) of
          Some (Resolved info) \<Rightarrow> json_parse E info = Inr json
        | _ \<Rightarrow> False)"

section \<open>Example inputs\<close>

definition fmt_mp4_360 :: format where
  "fmt_mp4_360 = \<lparr> format_id = Val ''18'', ext = Val ''mp4'', vcodec = Val ''avc1.42001E'',
      height = Val 360, abr = Val 96, filesize = Val 1048576, filesize_approx = Undefined \<rparr>"

definition fmt_webm_1080 :: format where
  "fmt_webm_1080 = \<lparr> format_id = Val ''248'', ext = Val ''webm'', vcodec = Val ''vp9'',
      height = Val 1080, abr = Null, filesize = Null, filesize_approx = Val 1500000 \<rparr>"

definition fmt_mp4_144 :: format where
  "fmt_mp4_144 = \<lparr> format_id = Val ''160'', ext = Val ''mp4'', vcodec = Val ''avc1.4d400c'',
      height = Val 144, abr = Null, filesize = Val 200000, filesize_approx = Undefined \<rparr>"

definition fmt_m4a :: format where
  "fmt_m4a = \<lparr> format_id = Val ''140'', ext = Val ''m4a'', vcodec = Val ''none'',
      height = Null, abr = Val 129, filesize = Val 3000000, filesize_approx = Undefined \<rparr>"

definition fmt_opus :: format where
  "fmt_opus = \<lparr> format_id = Val ''251'', ext = Val ''opus'', vcodec = Val ''none'',
      height = Undefined, abr = Val 0, filesize = Undefined, filesize_approx = Null \<rparr>"

definition fmt_mp4v_720 :: format where
  "fmt_mp4v_720 = \<lparr> format_id = Val ''x1'', ext = Val ''mp4v'', vcodec = Val ''avc1'',
      height = Val 720, abr = Null, filesize = Null, filesize_approx = Null \<rparr>"

definition fmt_m4a_unmarked :: format where
  "fmt_m4a_unmarked = \<lparr> format_id = Val ''u1'', ext = Val ''m4a'', vcodec = Undefined,
      height = Null, abr = Val 128, filesize = Null, filesize_approx = Null \<rparr>"

definition fmt_m4a_h :: "rat \<Rightarrow> format" where
  "fmt_m4a_h h = \<lparr> format_id = Val ''a'', ext = Val ''m4a'', vcodec = Val ''none'',
      height = Val h, abr = Null, filesize = Null, filesize_approx = Null \<rparr>"

text \<open>
  An environment in which the validator accepts the URLs that start with
  \<open>https://youtu.be/\<close>, and the child prints one line, writes no file and exits with
  status zero.
\<close>

definition env0 :: env where
  "env0 = \<lparr> isURL = (\<lambda>url protocols hosts. prefix ''https://youtu.be/'' url),
             toString = (\<lambda>x. []),
             json_parse = (\<lambda>text. Inl ''Unexpected end of JSON input''),
             child_events = (\<lambda>args. [Stdout ''[download] 100%'', Close (Val 0)]),
             child_writes = (\<lambda>args fs. fs),
             tmpdir = ''/tmp'',
             mkdtemp_suffix = ''abc123'' \<rparr>"


definition json0 :: "format list \<Rightarrow> video_json" where
  "json0 fs = \<lparr> title = Val ''A video'', thumbnail = Null, duration_string = Val ''3:33'',
                formats = Val fs \<rparr>"

text \<open>The same, with a child that prints the metadata of a video with the formats \<open>fs\<close>.\<close>

definition env_json :: "format list \<Rightarrow> env" where
  "env_json fs =
     env0 \<lparr> json_parse := (\<lambda>text. Inr (json0 fs)),
            child_events := (\<lambda>args. [Stdout ''{...}'', Close (Val 0)]) \<rparr>"

definition req0 :: query where
  "req0 = \<lparr> q_url = Val (Str ''https://youtu.be/dQw4w9WgXcQ''), q_format_id = Val (Str ''18''),
             q_kind = Undefined \<rparr>"

definition req_yta :: query where
  "req_yta = req0 \<lparr> q_kind := Val (Str ''yta'') \<rparr>"

definition plain :: "rat \<Rightarrow> entry" where
  "plain t = \<lparr> mtimeMs = t, files = [], stat_fails = None, rm_fails = None \<rparr>"

text \<open>A link whose target is missing: \<open>fs.statSync\<close> fails on it with \<open>ENOENT\<close>.\<close>

definition dangling :: entry where
  "dangling = \<lparr> mtimeMs = 0, files = [], stat_fails = Some ENOENT, rm_fails = None \<rparr>"

section \<open>Properties of formatBytes\<close>

lemma floor_rat_numeral_div:
  "\<lfloor>numeral a / numeral b :: rat\<rfloor> = numeral a div numeral b"
  by (metis floor_divide_of_int_eq of_int_numeral)

lemma show_nat_small: "n < 10 \<Longrightarrow> show_nat n = [digit n]"
  by (subst show_nat.simps) simp

lemma show_nat_large: "\<not> n < 10 \<Longrightarrow> show_nat n = show_nat (n div 10) @ [digit (n mod 10)]"
  by (subst show_nat.simps) simp

lemma show_nat_not_Nil: "show_nat n \<noteq> []"
  by (subst show_nat.simps) simp

lemma digit_0: "digit 0 = CHR ''0''"
  by (simp add: digit_def)

lemma show_nat_hundreds:
  assumes "100 \<le> n"
  shows "show_nat n = show_nat (n div 100) @ [digit (n div 10 mod 10), digit (n mod 10)]"
proof -
  have a: "\<not> n < 10" and b: "\<not> n div 10 < 10"
    using assms by auto
  have c: "n div 10 div 10 = n div 100"
    by (simp add: div_mult2_eq [symmetric])
  show ?thesis
    by (simp add: show_nat_large [OF a] show_nat_large [OF b] c)
qed

lemma scale_loop_step:
  "bytes \<ge> 1024 \<Longrightarrow> i < 3 \<Longrightarrow> scale_loop bytes i = scale_loop (bytes / 1024) (Suc i)"
  by (subst scale_loop.simps) (simp add: units_def)

lemma scale_loop_stop:
  "\<not> (bytes \<ge> 1024 \<and> i < 3) \<Longrightarrow> scale_loop bytes i = (bytes, i)"
  by (subst scale_loop.simps) (auto simp: units_def)

lemmas formatBytes_eval = formatBytes_def toFixed2_def Let_def show_nat_small show_nat_large
  scale_loop_step scale_loop_stop digit_def units_def floor_rat_numeral_div

text \<open>The digits of \<open>toFixed(2)\<close>: the padding and the split give the two decimal places.\<close>

lemma padded_digits:
  "(let m = show_nat n; k = length m;
        m = (if k \<le> 2 then replicate (2 + 1 - k) CHR ''0'' @ m else m); k = length m
    in take (k - 2) m @ ''.'' @ drop (k - 2) m)
   = show_nat (n div 100) @ ''.'' @ [digit (n div 10 mod 10), digit (n mod 10)]"
proof -
  consider "n < 10" | "10 \<le> n" "n < 100" | "100 \<le> n"
    by linarith
  then show ?thesis
  proof cases
    case 1
    then show ?thesis
      by (simp add: show_nat_small Let_def numeral_3_eq_3 digit_0)
  next
    case 2
    then have "show_nat n = [digit (n div 10), digit (n mod 10)]"
      by (simp add: show_nat_large show_nat_small)
    with 2 show ?thesis
      by (simp add: show_nat_small Let_def digit_0)
  next
    case 3
    then show ?thesis
      by (simp add: show_nat_hundreds show_nat_not_Nil Let_def)
  qed
qed

lemma toFixed2_two_decimals:
  assumes "\<bar>x\<bar> < 10 ^ 21"
  shows "toFixed2 ts x = two_decimals x"
proof (cases "x < 0")
  case True
  with assms have "\<not> 10 ^ 21 \<le> - x"
    by simp
  with True show ?thesis
    using padded_digits [of "nat \<lfloor>- x * 100 + 1 / 2\<rfloor>"]
    by (simp add: toFixed2_def two_decimals_def Let_def)
next
  case False
  with assms have "\<not> 10 ^ 21 \<le> x"
    by simp
  with False show ?thesis
    using padded_digits [of "nat \<lfloor>x * 100 + 1 / 2\<rfloor>"]
    by (simp add: toFixed2_def two_decimals_def Let_def)
qed

lemma toFixed2_exponent:
  assumes "10 ^ 21 \<le> \<bar>x\<bar>"
  shows "toFixed2 ts x = (if x < 0 then ''-'' else '''') @ ts \<bar>x\<bar>"
proof -
  have "(2::rat) ^ 53 < 10 ^ 21"
    by simp
  with assms have big: "\<not> \<bar>x\<bar> \<le> 2 ^ 53"
    by linarith
  show ?thesis
  proof (cases "x < 0")
    case True
    with assms big show ?thesis
      by (simp add: toFixed2_def number_to_string_def Let_def)
  next
    case False
    with assms big show ?thesis
      by (simp add: toFixed2_def number_to_string_def Let_def)
  qed
qed

lemma scale_loop_B: "b < 1024 \<Longrightarrow> scale_loop b 0 = (b, 0)"
  by (simp add: scale_loop_stop)

lemma scale_loop_KB: "1024 \<le> b \<Longrightarrow> b < 1024 ^ 2 \<Longrightarrow> scale_loop b 0 = (b / 1024, 1)"
  by (simp add: scale_loop_step scale_loop_stop)

lemma scale_loop_MB:
  "1024 ^ 2 \<le> b \<Longrightarrow> b < 1024 ^ 3 \<Longrightarrow> scale_loop b 0 = (b / 1024 ^ 2, 2)"
  by (simp add: scale_loop_step scale_loop_stop numeral_2_eq_2)

lemma scale_loop_GB: "1024 ^ 3 \<le> b \<Longrightarrow> scale_loop b 0 = (b / 1024 ^ 3, 3)"
  by (simp add: scale_loop_step scale_loop_stop numeral_2_eq_2 numeral_3_eq_3)

lemma formatBytes_falsy:
  "formatBytes ts Undefined = Null" "formatBytes ts Null = Null" "formatBytes ts (Val 0) = Null"
  by (simp_all add: formatBytes_def)

lemma formatBytes_below_TB:
  assumes "b \<noteq> 0" and "b < 1024 ^ 4"
  shows "\<exists>i<4. formatBytes ts (Val b) = Val (toFixed2 ts (b / 1024 ^ i) @ '' '' @ units ! i)
               \<and> b / 1024 ^ i < 1024 \<and> (\<forall>j<i. 1024 \<le> b / 1024 ^ j)"
proof -
  consider "b < 1024" | "1024 \<le> b" "b < 1024 ^ 2" | "1024 ^ 2 \<le> b" "b < 1024 ^ 3"
    | "1024 ^ 3 \<le> b"
    by linarith
  then show ?thesis
  proof cases
    case 1
    with assms have "formatBytes ts (Val b) = Val (toFixed2 ts (b / 1024 ^ 0) @ '' '' @ units ! 0)"
      by (simp add: formatBytes_def scale_loop_B)
    with 1 show ?thesis
      by (intro exI [of _ 0]) simp
  next
    case 2
    with assms have "formatBytes ts (Val b) = Val (toFixed2 ts (b / 1024 ^ 1) @ '' '' @ units ! 1)"
      by (simp add: formatBytes_def scale_loop_KB)
    with 2 show ?thesis
      by (intro exI [of _ 1]) simp
  next
    case 3
    with assms have "formatBytes ts (Val b) = Val (toFixed2 ts (b / 1024 ^ 2) @ '' '' @ units ! 2)"
      by (simp add: formatBytes_def scale_loop_MB)
    with 3 show ?thesis
      by (intro exI [of _ 2]) (simp add: numeral_2_eq_2 less_Suc_eq)
  next
    case 4
    with assms have "formatBytes ts (Val b) = Val (toFixed2 ts (b / 1024 ^ 3) @ '' '' @ units ! 3)"
      by (simp add: formatBytes_def scale_loop_GB)
    with 4 assms show ?thesis
      by (intro exI [of _ 3]) (simp add: numeral_3_eq_3 less_Suc_eq)
  qed
qed

lemma formatBytes_from_TB:
  assumes "1024 ^ 4 \<le> b"
  shows "formatBytes ts (Val b) = Val (toFixed2 ts (b / 1024 ^ 3) @ '' GB'')"
proof -
  have "1024 ^ 3 \<le> b" "b \<noteq> 0"
    using assms by simp_all
  then show ?thesis
    by (simp add: formatBytes_def scale_loop_GB units_def)
qed

text \<open>
  C3, as amended. \<open>formatBytes\<close> returns null for an absent, null or zero byte count. For
  every other count below \<open>1024^4\<close>, a negative one included, it returns \<open>toFixed(2)\<close> of
  the count divided by \<open>1024^i\<close>, followed by the \<open>i\<close>-th unit of B, KB, MB, GB, where \<open>i\<close> is
  the first index at which the divided count is below 1024. From \<open>1024^4\<close> bytes on, the
  unit is GB and the value is 1024 or more. \<open>toFixed(2)\<close> renders a value of magnitude
  below \<open>10^21\<close> with two decimal places, and a value of magnitude \<open>10^21\<close> or more as
  \<open>Number::toString\<close> renders it. In particular 1024 gives "1.00 KB", 1048576 gives
  "1.00 MB", 1073741824 gives "1.00 GB" and -2048 gives "-2048.00 B".
\<close>

theorem formatBytes_unit_and_decimals:
  "formatBytes ts Undefined = Null \<and> formatBytes ts Null = Null \<and> formatBytes ts (Val 0) = Null
   \<and> (b \<noteq> 0 \<and> b < 1024 ^ 4 \<longrightarrow>
        (\<exists>i<4. formatBytes ts (Val b) = Val (toFixed2 ts (b / 1024 ^ i) @ '' '' @ units ! i)
               \<and> b / 1024 ^ i < 1024 \<and> (\<forall>j<i. 1024 \<le> b / 1024 ^ j)))
   \<and> (1024 ^ 4 \<le> b \<longrightarrow>
        formatBytes ts (Val b) = Val (toFixed2 ts (b / 1024 ^ 3) @ '' GB'')
        \<and> 1024 \<le> b / 1024 ^ 3)
   \<and> (\<bar>x\<bar> < 10 ^ 21 \<longrightarrow> toFixed2 ts x = two_decimals x)
   \<and> (10 ^ 21 \<le> \<bar>x\<bar> \<longrightarrow> toFixed2 ts x = (if x < 0 then ''-'' else '''') @ ts \<bar>x\<bar>)
   \<and> formatBytes ts (Val 1024) = Val ''1.00 KB''
   \<and> formatBytes ts (Val 1048576) = Val ''1.00 MB''
   \<and> formatBytes ts (Val 1073741824) = Val ''1.00 GB''
   \<and> formatBytes ts (Val (- 2048)) = Val ''-2048.00 B''"
proof -
  have "formatBytes ts (Val 1024) = Val ''1.00 KB''"
    by (simp add: formatBytes_eval)
  moreover have "formatBytes ts (Val 1048576) = Val ''1.00 MB''"
    by (simp add: formatBytes_eval)
  moreover have "formatBytes ts (Val 1073741824) = Val ''1.00 GB''"
    by (simp add: formatBytes_eval)
  moreover have "formatBytes ts (Val (- 2048)) = Val ''-2048.00 B''"
    by (simp add: formatBytes_eval)
  moreover have "1024 ^ 4 \<le> b \<Longrightarrow> 1024 \<le> b / 1024 ^ 3"
    by simp
  ultimately show ?thesis
    using formatBytes_falsy [of ts] formatBytes_below_TB [of b ts] formatBytes_from_TB [of b ts]
      toFixed2_two_decimals [of x ts] toFixed2_exponent [of x ts]
    by blast
qed

theorem formatBytes_unit_and_decimals_witness:
  "(1500000::rat) \<noteq> 0 \<and> (1500000::rat) < 1024 ^ 4
   \<and> formatBytes (\<lambda>x. []) (Val 1500000) = Val ''1.43 MB''
   \<and> (\<exists>i<4. formatBytes (\<lambda>x. []) (Val 1500000)
               = Val (toFixed2 (\<lambda>x. []) (1500000 / 1024 ^ i) @ '' '' @ units ! i)
            \<and> (1500000::rat) / 1024 ^ i < 1024 \<and> (\<forall>j<i. 1024 \<le> (1500000::rat) / 1024 ^ j))
   \<and> \<bar>1500000 / 1024 ^ 2 :: rat\<bar> < 10 ^ 21
   \<and> toFixed2 (\<lambda>x. []) (1500000 / 1024 ^ 2) = two_decimals (1500000 / 1024 ^ 2)
   \<and> two_decimals (1500000 / 1024 ^ 2) = ''1.43''
   \<and> (1024::rat) ^ 4 \<le> 5 * 1024 ^ 4
   \<and> formatBytes (\<lambda>x. []) (Val (5 * 1024 ^ 4)) = Val (toFixed2 (\<lambda>x. []) (5 * 1024 ^ 4 / 1024 ^ 3) @ '' GB'')
   \<and> (10::rat) ^ 21 \<le> \<bar>- (10 ^ 22)\<bar>
   \<and> toFixed2 (\<lambda>x. ''1e+22'') (- (10 ^ 22)) = ''-1e+22''"
proof -
  have "formatBytes (\<lambda>x. []) (Val 1500000) = Val ''1.43 MB''"
    by (simp add: formatBytes_eval)
  moreover have "two_decimals (1500000 / 1024 ^ 2) = ''1.43''"
    by (simp add: two_decimals_def Let_def show_nat_small digit_def floor_rat_numeral_div)
  ultimately show ?thesis
    using formatBytes_unit_and_decimals [of "\<lambda>x. []" 1500000 "1500000 / 1024 ^ 2"]
      formatBytes_unit_and_decimals [of "\<lambda>x. []" "5 * 1024 ^ 4" 0]
      formatBytes_unit_and_decimals [of "\<lambda>x. ''1e+22''" 1 "- (10 ^ 22)"]
    by simp
qed

text \<open>
  The claim as first stated fails from one tebibyte on: no unit of the list brings the
  value below 1024, and the loop stops at GB. A negative count stays in bytes, though
  every unit brings it below 1024. And from \<open>10^21\<close> gibibytes on the value is not rendered
  with two decimal places: where \<open>Number::toString\<close> renders \<open>10^21\<close> as "1e+21", the result
  is "1e+21 GB".
\<close>

theorem formatBytes_below_1024_counterexample:
  "formatBytes (\<lambda>x. []) (Val (1024 ^ 4)) = Val ''1024.00 GB''
   \<and> \<not> ((1024::rat) ^ 4 / 1024 ^ 3 < 1024)
   \<and> formatBytes (\<lambda>x. []) (Val (- 2048)) = Val ''-2048.00 B''
   \<and> (- 2048::rat) / 1024 ^ 3 < 1024
   \<and> formatBytes (\<lambda>x. ''1e+21'') (Val (10 ^ 21 * 1024 ^ 3)) = Val ''1e+21 GB''"
proof -
  have "scale_loop (10 ^ 21 * 1024 ^ 3) 0 = (10 ^ 21, 3)"
    by (simp add: scale_loop_step scale_loop_stop units_def)
  moreover have "number_to_string (\<lambda>x. ''1e+21'') (10 ^ 21) = ''1e+21''"
    by (simp add: number_to_string_def)
  ultimately have "formatBytes (\<lambda>x. ''1e+21'') (Val (10 ^ 21 * 1024 ^ 3)) = Val ''1e+21 GB''"
    by (simp add: formatBytes_def toFixed2_def units_def)
  then show ?thesis
    by (simp add: formatBytes_eval)
qed

section \<open>Properties of the selection\<close>

lemma regex_test_iff: "regex_test alts s \<longleftrightarrow> list_ex (\<lambda>w. contains_word w s) alts"
proof (induction s)
  case Nil
  show ?case
    by (auto simp: match_here_def contains_word_def list_ex_iff)
next
  case (Cons c cs)
  show ?case
    unfolding regex_test.simps Cons.IH
    by (auto simp: match_here_def contains_word_def list_ex_iff sublist_Cons_right)
qed

lemma audio_entry_iff: "audio_entry f \<longleftrightarrow> audio_like f"
  by (simp add: audio_entry_def audio_like_def no_video_codec_def regex_test_iff)




lemma mset_insert_by: "mset (insert_by cmp x ys) = add_mset x (mset ys)"
  by (induction ys) auto

lemma mset_js_sort: "mset (js_sort cmp xs) = mset xs"
  by (induction xs) (auto simp: js_sort_def mset_insert_by)

lemma set_insert_by: "set (insert_by cmp x ys) = insert x (set ys)"
  by (induction ys) auto

lemma descending_insert_by:
  "descending ys \<Longrightarrow> descending (insert_by by_quality x ys)"
  by (induction ys) (auto simp: descending_def by_quality_def set_insert_by)

lemma descending_js_sort: "descending (js_sort by_quality xs)"
proof (induction xs)
  case Nil
  show ?case by (simp add: js_sort_def descending_def)
next
  case (Cons x xs)
  then show ?case
    using descending_insert_by [of "js_sort by_quality xs" x] by (simp add: js_sort_def)
qed

lemma filter_insert_by:
  "filter (\<lambda>f. height_or_0 f = k) (insert_by by_quality x ys) =
     (if height_or_0 x = k then x # filter (\<lambda>f. height_or_0 f = k) ys
      else filter (\<lambda>f. height_or_0 f = k) ys)"
  by (induction ys) (auto simp: by_quality_def)

lemma js_sort_stable:
  "filter (\<lambda>f. height_or_0 f = k) (js_sort by_quality xs) = filter (\<lambda>f. height_or_0 f = k) xs"
  by (induction xs) (auto simp: js_sort_def filter_insert_by)

lemma js_sort_descending_id: "descending xs \<Longrightarrow> js_sort by_quality xs = xs"
proof (induction xs)
  case Nil
  show ?case by (simp add: js_sort_def)
next
  case (Cons x xs)
  then have "js_sort by_quality (x # xs) = insert_by by_quality x xs"
    by (simp add: js_sort_def descending_def)
  also have "\<dots> = x # xs"
    using Cons.prems by (cases xs) (auto simp: descending_def by_quality_def)
  finally show ?case .
qed

lemma height_or_0_falsy: "\<not> truthy (height f) \<Longrightarrow> height_or_0 f = 0"
  by (cases "height f") (auto simp: height_or_0_def)

lemma descending_flat: "list_all (\<lambda>f. \<not> truthy (height f)) xs \<Longrightarrow> descending xs"
  by (induction xs) (auto simp: descending_def height_or_0_falsy list_all_iff)

text \<open>The selection, in the words of the specification.\<close>

lemma select_formats_audio:
  assumes "kind = Val (Str ''yta'')"
  shows "mset (select_formats kind fs) = mset (filter audio_like fs)"
    and "descending (select_formats kind fs)"
    and "filter (\<lambda>f. height_or_0 f = k) (select_formats kind fs)
           = filter (\<lambda>f. height_or_0 f = k) (filter audio_like fs)"
    and "list_all (\<lambda>f. \<not> truthy (height f)) (filter audio_like fs)
           \<Longrightarrow> select_formats kind fs = filter audio_like fs"
proof -
  have sel: "select_formats kind fs = js_sort by_quality (filter audio_like fs)"
    using assms by (simp add: select_formats_def audio_entry_iff [abs_def])
  show "mset (select_formats kind fs) = mset (filter audio_like fs)"
    by (simp only: sel mset_js_sort)
  show "descending (select_formats kind fs)"
    by (simp only: sel descending_js_sort)
  show "filter (\<lambda>f. height_or_0 f = k) (select_formats kind fs)
           = filter (\<lambda>f. height_or_0 f = k) (filter audio_like fs)"
    by (simp only: sel js_sort_stable)
  show "select_formats kind fs = filter audio_like fs"
    if "list_all (\<lambda>f. \<not> truthy (height f)) (filter audio_like fs)"
    using that by (simp only: sel js_sort_descending_id descending_flat)
qed


lemma set_select_formats: "set (select_formats kind fs) \<subseteq> set fs"
proof -
  have "set (select_formats kind fs) = set_mset (mset (select_formats kind fs))"
    by simp
  also have "\<dots> \<subseteq> set fs"
    unfolding select_formats_def mset_js_sort by auto
  finally show ?thesis .
qed

section \<open>The response of the inspect endpoint\<close>

lemma kind_of_yta: "kind_of req = Val (Str ''yta'') \<longleftrightarrow> q_kind req = Val (Str ''yta'')"
  by (simp add: kind_of_def)

lemma inspect_success:
  assumes "tool_returns E req json"
  shows "inspect E req =
     \<lparr> response = Json 200 (Success
         \<lparr> i_title = title json, i_thumbnail = thumbnail json,
           i_duration = duration_string json,
           i_formats = map (cleaned (toString E))
                         (select_formats (kind_of req) (formats_or_empty json)) \<rparr>),
       invocations = [inspect_args req] \<rparr>"
  using assms
  by (auto simp: tool_returns_def inspect_def Let_def split: option.splits settlement.splits)

lemmas examples = fmt_mp4_360_def fmt_webm_1080_def fmt_mp4_144_def fmt_m4a_def fmt_opus_def
  fmt_mp4v_720_def fmt_m4a_h_def fmt_m4a_unmarked_def

lemmas select_eval = select_formats_def js_sort_def video_entry_def audio_entry_def
  match_here_def canonicalize_def by_quality_def height_or_0_def

lemmas cleaned_eval = cleaned_def number_to_string_def show_int_def height_or_0_def
  formatBytes_eval

lemma tool_returns_env_json:
  "tool_returns (env_json fs) req0 (json0 fs)" "tool_returns (env_json fs) req_yta (json0 fs)"
  by (simp_all add: tool_returns_def env_json_def env0_def req0_def req_yta_def runYtDlp_def
      spawned_def settle_def)

lemma env_json_fields:
  "toString (env_json fs) = (\<lambda>x. [])" "formats_or_empty (json0 fs) = fs"
  "title (json0 fs) = Val ''A video''" "thumbnail (json0 fs) = Null"
  "duration_string (json0 fs) = Val ''3:33''"
  "q_kind req0 = Undefined" "q_kind req_yta = Val (Str ''yta'')"
  by (simp_all add: env_json_def env0_def json0_def formats_or_empty_def req0_def req_yta_def)




text \<open>
  C9, as amended. When the tool returns a format list to an inspect request with
  \<open>kind=yta\<close>, the response has the cleaned forms of the entries that survive the filter,
  sorted like the video entries: by descending height, an absent height counted as 0, and
  entries of equal height in the relative order of the source list. When no surviving
  entry has a height, they are in the order of the source list.
\<close>

theorem inspect_audio_order:
  "tool_returns E req json \<and> q_kind req = Val (Str ''yta'') \<longrightarrow>
     (\<exists>kept.
        response (inspect E req) =
          Json 200 (Success
            \<lparr> i_title = title json, i_thumbnail = thumbnail json,
              i_duration = duration_string json,
              i_formats = map (cleaned (toString E)) kept \<rparr>)
        \<and> mset kept = mset (filter audio_like (formats_or_empty json))
        \<and> descending kept
        \<and> (\<forall>k. filter (\<lambda>f. height_or_0 f = k) kept
                 = filter (\<lambda>f. height_or_0 f = k) (filter audio_like (formats_or_empty json)))
        \<and> (list_all (\<lambda>f. \<not> truthy (height f)) (filter audio_like (formats_or_empty json))
              \<longrightarrow> kept = filter audio_like (formats_or_empty json)))"
proof
  assume "tool_returns E req json \<and> q_kind req = Val (Str ''yta'')"
  then have t: "tool_returns E req json" and k: "kind_of req = Val (Str ''yta'')"
    by (simp_all add: kind_of_yta)
  let ?kept = "select_formats (kind_of req) (formats_or_empty json)"
  have "response (inspect E req) =
      Json 200 (Success
        \<lparr> i_title = title json, i_thumbnail = thumbnail json,
          i_duration = duration_string json,
          i_formats = map (cleaned (toString E)) ?kept \<rparr>)"
    by (simp add: inspect_success [OF t])
  then show "\<exists>kept.
        response (inspect E req) =
          Json 200 (Success
            \<lparr> i_title = title json, i_thumbnail = thumbnail json,
              i_duration = duration_string json,
              i_formats = map (cleaned (toString E)) kept \<rparr>)
        \<and> mset kept = mset (filter audio_like (formats_or_empty json))
        \<and> descending kept
        \<and> (\<forall>k. filter (\<lambda>f. height_or_0 f = k) kept
                 = filter (\<lambda>f. height_or_0 f = k) (filter audio_like (formats_or_empty json)))
        \<and> (list_all (\<lambda>f. \<not> truthy (height f)) (filter audio_like (formats_or_empty json))
              \<longrightarrow> kept = filter audio_like (formats_or_empty json))"
    using select_formats_audio [OF k, where fs = "formats_or_empty json"] by blast
qed

theorem inspect_audio_order_witness:
  "tool_returns (env_json [fmt_mp4_360, fmt_m4a, fmt_mp4_144, fmt_opus]) req_yta
     (json0 [fmt_mp4_360, fmt_m4a, fmt_mp4_144, fmt_opus])
   \<and> q_kind req_yta = Val (Str ''yta'')
   \<and> filter audio_like [fmt_mp4_360, fmt_m4a, fmt_mp4_144, fmt_opus] = [fmt_m4a, fmt_opus]
   \<and> list_all (\<lambda>f. \<not> truthy (height f)) [fmt_m4a, fmt_opus]
   \<and> response (inspect (env_json [fmt_mp4_360, fmt_m4a, fmt_mp4_144, fmt_opus]) req_yta) =
        Json 200 (Success
          \<lparr> i_title = Val ''A video'', i_thumbnail = Null, i_duration = Val ''3:33'',
            i_formats = map (cleaned (\<lambda>x. [])) [fmt_m4a, fmt_opus] \<rparr>)"
proof -
  have a: "\<not> audio_entry fmt_mp4_360" "audio_entry fmt_m4a" "\<not> audio_entry fmt_mp4_144"
    "audio_entry fmt_opus"
    by (simp_all add: select_eval examples)
  have f: "filter audio_like [fmt_mp4_360, fmt_m4a, fmt_mp4_144, fmt_opus] = [fmt_m4a, fmt_opus]"
    using a by (simp add: audio_entry_iff [symmetric])
  have h: "list_all (\<lambda>f. \<not> truthy (height f)) [fmt_m4a, fmt_opus]"
    by (simp add: examples)
  show ?thesis
    using inspect_audio_order [of "env_json [fmt_mp4_360, fmt_m4a, fmt_mp4_144, fmt_opus]" req_yta
        "json0 [fmt_mp4_360, fmt_m4a, fmt_mp4_144, fmt_opus]"] f h
    by (auto simp: tool_returns_env_json env_json_fields)
qed

text \<open>
  The claim as first stated says that audio entries are never reordered. Two audio
  entries with the heights 1 and 2, in this order in the source list, are in the response
  in the other order.
\<close>

theorem inspect_audio_order_counterexample:
  "response (inspect (env_json [fmt_m4a_h 1, fmt_m4a_h 2]) req_yta) =
     Json 200 (Success
       \<lparr> i_title = Val ''A video'', i_thumbnail = Null, i_duration = Val ''3:33'',
         i_formats = [\<lparr> out_format_id = Val ''a'', out_ext = Val ''m4a'',
                        resolution = Val ''2p'', audio_bitrate = Null, size_f = Null \<rparr>,
                      \<lparr> out_format_id = Val ''a'', out_ext = Val ''m4a'',
                        resolution = Val ''1p'', audio_bitrate = Null, size_f = Null \<rparr>] \<rparr>)
   \<and> resolution (cleaned (\<lambda>x. []) (fmt_m4a_h 1)) = Val ''1p''
   \<and> resolution (cleaned (\<lambda>x. []) (fmt_m4a_h 2)) = Val ''2p''"
proof -
  have "select_formats (kind_of req_yta) [fmt_m4a_h 1, fmt_m4a_h 2] = [fmt_m4a_h 2, fmt_m4a_h 1]"
    by (simp add: select_eval examples kind_of_def req_yta_def req0_def)
  moreover have "cleaned (\<lambda>x. []) (fmt_m4a_h 1) =
      \<lparr> out_format_id = Val ''a'', out_ext = Val ''m4a'',
        resolution = Val ''1p'', audio_bitrate = Null, size_f = Null \<rparr>"
    by (simp add: cleaned_eval examples)
  moreover have "cleaned (\<lambda>x. []) (fmt_m4a_h 2) =
      \<lparr> out_format_id = Val ''a'', out_ext = Val ''m4a'',
        resolution = Val ''2p'', audio_bitrate = Null, size_f = Null \<rparr>"
    by (simp add: cleaned_eval examples)
  ultimately show ?thesis
    by (simp add: inspect_success [OF tool_returns_env_json(2)] env_json_fields)
qed

lemma absent_or_zero_iff: "absent_or_zero x \<longleftrightarrow> \<not> truthy x"
  by (cases x) (auto simp: absent_or_zero_def)

lemma formatBytes_Null_iff: "formatBytes ts x = Null \<longleftrightarrow> \<not> truthy x"
  by (cases x) (auto simp: formatBytes_def split: prod.splits)

lemma truthy_not_Null: "truthy x \<Longrightarrow> x \<noteq> Null"
  by auto

lemma read_off_cleaned: "read_off ts f (cleaned ts f)"
  by (auto simp: read_off_def cleaned_def absent_or_zero_iff formatBytes_Null_iff
      dest: truthy_not_Null)

text \<open>
  C10. When the tool returns a format list to the inspect request, every entry of the
  response is read off an entry of that list: \<open>size\<close> is computed from \<open>filesize\<close>, or from
  \<open>filesize_approx\<close> when \<open>filesize\<close> is absent, null or zero, and is null exactly when
  both are absent, null or zero; \<open>audio_bitrate\<close> is null exactly when \<open>abr\<close> is absent,
  null or zero, and \<open>resolution\<close> is null exactly when \<open>height\<close> is absent, null or zero.
\<close>

theorem inspect_entries_read_off:
  "tool_returns E req json \<longrightarrow>
     (\<exists>kept p.
        response (inspect E req) = Json 200 (Success p)
        \<and> set kept \<subseteq> set (formats_or_empty json)
        \<and> list_all2 (read_off (toString E)) kept (i_formats p))"
proof
  assume t: "tool_returns E req json"
  let ?kept = "select_formats (kind_of req) (formats_or_empty json)"
  let ?p = "\<lparr> i_title = title json, i_thumbnail = thumbnail json,
             i_duration = duration_string json,
             i_formats = map (cleaned (toString E)) ?kept \<rparr>"
  have "response (inspect E req) = Json 200 (Success ?p)"
    by (simp add: inspect_success [OF t])
  moreover have "set ?kept \<subseteq> set (formats_or_empty json)"
    by (rule set_select_formats)
  moreover have "list_all2 (read_off (toString E)) ?kept (i_formats ?p)"
    by (simp add: list_all2_map2 read_off_cleaned list_all2_refl)
  ultimately show "\<exists>kept p.
        response (inspect E req) = Json 200 (Success p)
        \<and> set kept \<subseteq> set (formats_or_empty json)
        \<and> list_all2 (read_off (toString E)) kept (i_formats p)"
    by blast
qed

theorem inspect_entries_read_off_witness:
  "tool_returns (env_json [fmt_webm_1080, fmt_m4a, fmt_mp4_360]) req0
     (json0 [fmt_webm_1080, fmt_m4a, fmt_mp4_360])
   \<and> response (inspect (env_json [fmt_webm_1080, fmt_m4a, fmt_mp4_360]) req0) =
       Json 200 (Success
         \<lparr> i_title = Val ''A video'', i_thumbnail = Null, i_duration = Val ''3:33'',
           i_formats = [\<lparr> out_format_id = Val ''248'', out_ext = Val ''webm'',
                          resolution = Val ''1080p'', audio_bitrate = Null,
                          size_f = Val ''1.43 MB'' \<rparr>,
                        \<lparr> out_format_id = Val ''18'', out_ext = Val ''mp4'',
                          resolution = Val ''360p'', audio_bitrate = Val 96,
                          size_f = Val ''1.00 MB'' \<rparr>] \<rparr>)
   \<and> (\<exists>kept p.
        response (inspect (env_json [fmt_webm_1080, fmt_m4a, fmt_mp4_360]) req0)
          = Json 200 (Success p)
        \<and> set kept \<subseteq> set [fmt_webm_1080, fmt_m4a, fmt_mp4_360]
        \<and> list_all2 (read_off (\<lambda>x. [])) kept (i_formats p))
   \<and> read_off (\<lambda>x. []) fmt_webm_1080
        \<lparr> out_format_id = Val ''248'', out_ext = Val ''webm'', resolution = Val ''1080p'',
          audio_bitrate = Null, size_f = Val ''1.43 MB'' \<rparr>"
proof -
  have "select_formats (kind_of req0) [fmt_webm_1080, fmt_m4a, fmt_mp4_360]
      = [fmt_webm_1080, fmt_mp4_360]"
    by (simp add: select_eval examples kind_of_def req0_def)
  moreover have c1: "cleaned (\<lambda>x. []) fmt_webm_1080 =
      \<lparr> out_format_id = Val ''248'', out_ext = Val ''webm'', resolution = Val ''1080p'',
        audio_bitrate = Null, size_f = Val ''1.43 MB'' \<rparr>"
    by (simp add: cleaned_eval examples)
  moreover have "cleaned (\<lambda>x. []) fmt_mp4_360 =
      \<lparr> out_format_id = Val ''18'', out_ext = Val ''mp4'', resolution = Val ''360p'',
        audio_bitrate = Val 96, size_f = Val ''1.00 MB'' \<rparr>"
    by (simp add: cleaned_eval examples)
  moreover have "read_off (\<lambda>x. []) fmt_webm_1080
        \<lparr> out_format_id = Val ''248'', out_ext = Val ''webm'', resolution = Val ''1080p'',
          audio_bitrate = Null, size_f = Val ''1.43 MB'' \<rparr>"
    using read_off_cleaned [of "\<lambda>x. []" fmt_webm_1080] by (simp only: c1)
  ultimately show ?thesis
    using inspect_entries_read_off [of "env_json [fmt_webm_1080, fmt_m4a, fmt_mp4_360]" req0
        "json0 [fmt_webm_1080, fmt_m4a, fmt_mp4_360]"]
    by (simp add: inspect_success [OF tool_returns_env_json(1)] tool_returns_env_json
        env_json_fields)
qed

section \<open>Lemmas about the runner\<close>

lemma promise_settle: "promise (settle r s) = (if promise s = None then Some r else promise s)"
  by (simp add: settle_def)

lemma settle_fields [simp]:
  "out (settle r s) = out s" "err (settle r s) = err s"
  "timer_pending (settle r s) = timer_pending s" "kill_sent (settle r s) = kill_sent s"
  "child_closed (settle r s) = child_closed s"
  by (simp_all add: settle_def)

lemma settled_on_event: "promise s \<noteq> None \<Longrightarrow> promise (on_event s e) = promise s"
  by (cases e) (auto simp: promise_settle Let_def)

lemma settled_stays: "promise s \<noteq> None \<Longrightarrow> promise (foldl on_event s es) = promise s"
  by (induction es arbitrary: s) (simp_all add: settled_on_event)

lemma data_events:
  assumes "\<forall>e\<in>set ds. is_data e"
  shows "foldl on_event s ds =
           s\<lparr>out := out s @ concat (map stdout_chunk ds), err := err s @ concat (map stderr_chunk ds)\<rparr>"
  using assms
proof (induction ds arbitrary: s)
  case Nil
  show ?case by simp
next
  case (Cons e ds)
  then show ?case by (cases e) simp_all
qed

lemma runYtDlp_data:
  assumes "\<forall>e\<in>set ds. is_data e"
  shows "runYtDlp (ds @ es) =
     foldl on_event (spawned\<lparr>out := concat (map stdout_chunk ds), err := concat (map stderr_chunk ds)\<rparr>) es"
  using data_events [OF assms, of spawned] by (simp add: runYtDlp_def spawned_def)

lemma runYtDlp_close:
  assumes "\<forall>e\<in>set ds. is_data e"
  shows "promise (runYtDlp (ds @ Close code # rest)) =
     Some (if code = Val 0 then Resolved (concat (map stdout_chunk ds))
           else Rejected (if concat (map stderr_chunk ds) \<noteq> [] then concat (map stderr_chunk ds)
                          else ''Process exited with code '' @ show_code code))"
  by (simp add: runYtDlp_data [OF assms] settled_stays promise_settle spawned_def Let_def)

lemma runYtDlp_timeout:
  assumes "\<forall>e\<in>set ds. is_data e"
  shows "promise (runYtDlp (ds @ Timeout # rest)) = Some (Rejected ''Operation timed out'')"
  by (simp add: runYtDlp_data [OF assms] settled_stays promise_settle spawned_def)

lemma runYtDlp_timeout_state:
  assumes "\<forall>e\<in>set ds. is_data e"
  shows "kill_sent (runYtDlp (ds @ [Timeout])) \<and> \<not> child_closed (runYtDlp (ds @ [Timeout]))"
  by (simp add: runYtDlp_data [OF assms] spawned_def)

section \<open>Lemmas about the sweeper\<close>

lemma sweep_append:
  "sweep tmp now (xs @ ys) fs =
     (case sweep tmp now xs fs of Inl x \<Rightarrow> Inl x | Inr fs' \<Rightarrow> sweep tmp now ys fs')"
  by (induction xs arbitrary: fs) (auto split: sum.splits)

lemma sweep_clean:
  assumes "distinct (map fst fs)" and "set ns \<subseteq> fst ` set fs" and "distinct ns"
    and "\<forall>(n, e)\<in>set fs. n \<in> set ns \<longrightarrow> sweepable now e"
  shows "sweep tmp now ns fs =
           Inr (filter (\<lambda>(n, e). \<not> (n \<in> set ns \<and> old_enough now e)) fs)"
  using assms
proof (induction ns arbitrary: fs)
  case Nil
  show ?case by simp
next
  case (Cons f rest)
  from Cons.prems(2) obtain e where e: "(f, e) \<in> set fs"
    by auto
  with Cons.prems(1) have m: "map_of fs f = Some e"
    by simp
  from e Cons.prems(4) have ok: "sweepable now e"
    by auto
  then have stat: "statSync tmp fs f = Inr e"
    by (simp add: statSync_def m sweepable_def)
  have only: "e' = e" if "(f, e') \<in> set fs" for e'
    using that e Cons.prems(1) by (meson eq_key_imp_eq_value)
  show ?case
  proof (cases "old_enough now e")
    case True
    let ?fs' = "filter (\<lambda>(n, e). n \<noteq> f) fs"
    have rm: "rmSync tmp fs f = Inr ?fs'"
      using ok True by (simp add: rmSync_def m sweepable_def)
    have d: "distinct (map fst ?fs')"
      using Cons.prems(1) by (simp add: distinct_map_filter)
    have s: "set rest \<subseteq> fst ` set ?fs'"
      using Cons.prems(2,3) by force
    have g: "\<forall>(n, e)\<in>set ?fs'. n \<in> set rest \<longrightarrow> sweepable now e"
      using Cons.prems(4) by auto
    have "sweep tmp now (f # rest) fs = sweep tmp now rest ?fs'"
      using True stat rm by (simp add: old_enough_def)
    also have "\<dots> = Inr (filter (\<lambda>(n, e). \<not> (n \<in> set rest \<and> old_enough now e)) ?fs')"
      using Cons.IH [OF d s _ g] Cons.prems(3) by simp
    also have "filter (\<lambda>(n, e). \<not> (n \<in> set rest \<and> old_enough now e)) ?fs'
        = filter (\<lambda>(n, e). \<not> (n \<in> set (f # rest) \<and> old_enough now e)) fs"
      unfolding filter_filter
      using True only by (intro filter_cong) auto
    finally show ?thesis .
  next
    case False
    have g: "\<forall>(n, e)\<in>set fs. n \<in> set rest \<longrightarrow> sweepable now e"
      using Cons.prems(4) by auto
    have "sweep tmp now (f # rest) fs = sweep tmp now rest fs"
      using False stat by (simp add: old_enough_def)
    also have "\<dots> = Inr (filter (\<lambda>(n, e). \<not> (n \<in> set rest \<and> old_enough now e)) fs)"
      using Cons.IH [OF Cons.prems(1) _ _ g] Cons.prems(2,3) by simp
    also have "filter (\<lambda>(n, e). \<not> (n \<in> set rest \<and> old_enough now e)) fs
        = filter (\<lambda>(n, e). \<not> (n \<in> set (f # rest) \<and> old_enough now e)) fs"
      using False only by (intro filter_cong) auto
    finally show ?thesis .
  qed
qed

lemma stale_iff: "stale now (n, e) \<longleftrightarrow> prefix ''dl-'' n \<and> old_enough now e"
  by (simp add: stale_def old_enough_def MAX_FILE_AGE_def)

text \<open>
  On a temp root that no other process changes during the sweep and whose entries with
  the prefix can all be inspected, and removed when they are old, the sweep removes
  exactly the stale entries.
\<close>

lemma cleanupTempFiles_deletes_stale:
  assumes "distinct (readdirSync fs)"
    and "\<forall>(n, e)\<in>set fs. prefix ''dl-'' n \<longrightarrow> sweepable now e"
  shows "cleanupTempFiles tmp now fs = Inr (filter (\<lambda>ne. \<not> stale now ne) fs)"
proof -
  let ?ns = "filter (prefix ''dl-'') (readdirSync fs)"
  have d: "distinct (map fst fs)"
    using assms(1) by (simp add: readdirSync_def)
  have "set ?ns \<subseteq> fst ` set fs" and "distinct ?ns"
    and "\<forall>(n, e)\<in>set fs. n \<in> set ?ns \<longrightarrow> sweepable now e"
    using assms by (auto simp: readdirSync_def)
  then have "sweep tmp now ?ns fs =
      Inr (filter (\<lambda>(n, e). \<not> (n \<in> set ?ns \<and> old_enough now e)) fs)"
    by (rule sweep_clean [OF d])
  then have "cleanupTempFiles tmp now fs =
      Inr (filter (\<lambda>(n, e). \<not> (n \<in> set ?ns \<and> old_enough now e)) fs)"
    by (simp only: cleanupTempFiles_def cleanupTempFiles_among_def)
  also have "filter (\<lambda>(n, e). \<not> (n \<in> set ?ns \<and> old_enough now e)) fs
      = filter (\<lambda>ne. \<not> stale now ne) fs"
    by (intro filter_cong) (auto simp: readdirSync_def stale_iff image_iff)
  finally show ?thesis .
qed

text \<open>
  An entry of the listing that is missing when the sweep reaches it ends the sweep with
  an error, whatever the other entries are.
\<close>

lemma sweep_missing:
  "f \<in> set ns \<Longrightarrow> f \<notin> set (readdirSync fs) \<Longrightarrow> \<exists>e. sweep tmp now ns fs = Inl e"
proof (induction ns arbitrary: fs)
  case Nil
  then show ?case by simp
next
  case (Cons g rest)
  have none: "map_of fs f = None"
    using Cons.prems(2) by (simp add: readdirSync_def map_of_eq_None_iff)
  show ?case
  proof (cases "statSync tmp fs g")
    case (Inl e)
    then show ?thesis by simp
  next
    case (Inr stat)
    with none have "g \<noteq> f"
      by (auto simp: statSync_def)
    with Cons.prems(1) have r: "f \<in> set rest"
      by simp
    show ?thesis
    proof (cases "rmSync tmp fs g")
      case (Inl e)
      with Inr Cons.IH [OF r Cons.prems(2)] show ?thesis
        by simp
    next
      case rm: (Inr fs')
      then have "set (readdirSync fs') \<subseteq> set (readdirSync fs)"
        by (auto simp: rmSync_def readdirSync_def split: option.splits)
      with Cons.prems(2) have "f \<notin> set (readdirSync fs')"
        by auto
      with Inr rm Cons.IH [OF r] Cons.prems(2) show ?thesis
        by simp
    qed
  qed
qed

text \<open>
  An entry with the prefix that cannot be inspected ends the sweep: the entries before it
  have been swept, it and every entry after it are left as they are.
\<close>

lemma cleanupTempFiles_stops:
  assumes "distinct (readdirSync (before @ (f, e) # after))"
    and "prefix ''dl-'' f" and "stat_fails e = Some c"
    and "\<forall>(n, e')\<in>set before. prefix ''dl-'' n \<longrightarrow> sweepable now e'"
  shows "cleanupTempFiles tmp now (before @ (f, e) # after) =
           Inl (Err c ''stat'' (path_join tmp f),
                filter (\<lambda>ne. \<not> stale now ne) before @ (f, e) # after)"
proof -
  let ?fs = "before @ (f, e) # after"
  let ?nb = "filter (prefix ''dl-'') (map fst before)"
  let ?na = "filter (prefix ''dl-'') (map fst after)"
  let ?fs1 = "filter (\<lambda>ne. \<not> stale now ne) before @ (f, e) # after"
  have d: "distinct (map fst ?fs)"
    using assms(1) by (simp add: readdirSync_def)
  have disj: "fst ` set before \<inter> fst ` set after = {}"
    using d by auto
  have names: "filter (prefix ''dl-'') (readdirSync ?fs) = ?nb @ f # ?na"
    using assms(2) by (simp add: readdirSync_def)
  have inb: "(n, e') \<in> set before" if "(n, e') \<in> set ?fs" "n \<in> set ?nb" for n e'
  proof -
    from that(2) obtain e'' where "(n, e'') \<in> set before"
      by auto
    then have "(n, e'') \<in> set ?fs"
      by simp
    with that(1) d have "e' = e''"
      by (meson eq_key_imp_eq_value)
    with \<open>(n, e'') \<in> set before\<close> show ?thesis
      by simp
  qed
  have g: "\<forall>(n, e')\<in>set ?fs. n \<in> set ?nb \<longrightarrow> sweepable now e'"
  proof (intro ballI, clarify)
    fix n e'
    assume "(n, e') \<in> set ?fs" and n: "n \<in> set ?nb"
    then have "(n, e') \<in> set before"
      by (rule inb)
    moreover from n have "prefix ''dl-'' n"
      by simp
    ultimately show "sweepable now e'"
      using assms(4) by blast
  qed
  have "set ?nb \<subseteq> fst ` set ?fs" and "distinct ?nb"
    using d by (auto simp: distinct_map_filter)
  then have "sweep tmp now ?nb ?fs =
      Inr (filter (\<lambda>(n, e). \<not> (n \<in> set ?nb \<and> old_enough now e)) ?fs)"
    using g by (intro sweep_clean [OF d])
  also have "filter (\<lambda>(n, e). \<not> (n \<in> set ?nb \<and> old_enough now e)) ?fs = ?fs1"
  proof -
    have "filter (\<lambda>(n, e). \<not> (n \<in> set ?nb \<and> old_enough now e)) before
        = filter (\<lambda>ne. \<not> stale now ne) before"
      by (intro filter_cong) (auto simp: stale_iff image_iff)
    moreover have "f \<notin> set ?nb"
      using d by auto
    moreover have "filter (\<lambda>(n, e). \<not> (n \<in> set ?nb \<and> old_enough now e)) after = after"
    proof (rule filter_True, clarify)
      fix n e'
      assume "(n, e') \<in> set after" and "n \<in> set ?nb"
      then have "n \<in> fst ` set after" and "n \<in> fst ` set before"
        by force+
      with disj show False
        by blast
    qed
    ultimately show ?thesis
      by simp
  qed
  finally have first: "sweep tmp now ?nb ?fs = Inr ?fs1" .
  have "distinct (map fst ?fs1)"
    using d by (auto simp: distinct_map_filter)
  moreover have "(f, e) \<in> set ?fs1"
    by simp
  ultimately have "map_of ?fs1 f = Some e"
    by (rule map_of_is_SomeI)
  then have "statSync tmp ?fs1 f = Inl (Err c ''stat'' (path_join tmp f))"
    using assms(3) by (simp add: statSync_def)
  then have "sweep tmp now (f # ?na) ?fs1 = Inl (Err c ''stat'' (path_join tmp f), ?fs1)"
    by simp
  with first have "sweep tmp now (?nb @ f # ?na) ?fs = Inl (Err c ''stat'' (path_join tmp f), ?fs1)"
    by (simp add: sweep_append)
  then show ?thesis
    by (simp only: cleanupTempFiles_def cleanupTempFiles_among_def names)
qed

section \<open>The endpoints, the runner and the sweeper: the claims\<close>

lemma download_valid:
  assumes "truthy_param (q_url req)" and "truthy_param (q_format_id req)"
    and "isValidYouTubeUrl E (q_url req) = Inr True"
  shows "download E now req fs =
     (let fs2 = child_writes E (download_args E req)
                  (fs @ [(download_dir E,
                          \<lparr> mtimeMs = now, files = [], stat_fails = None, rm_fails = None \<rparr>)])
      in case promise (runYtDlp (child_events E (download_args E req))) of
           None \<Rightarrow>
             \<lparr> response = Pending, invocations = [download_args E req], tmp_after = fs2,
               uncaught = None \<rparr>
         | Some (Rejected m) \<Rightarrow>
             \<lparr> response = Json 500 (Failure (''Download failed: '' @ m)),
               invocations = [download_args E req], tmp_after = fs2, uncaught = None \<rparr>
         | Some (Resolved info) \<Rightarrow>
             (case readdirSync_in (tmpdir E) fs2 (download_dir E) of
                Inl e \<Rightarrow>
                  \<lparr> response = Json 500 (Failure (''Download failed: '' @ message e)),
                    invocations = [download_args E req], tmp_after = fs2, uncaught = None \<rparr>
              | Inr [] \<Rightarrow>
                  \<lparr> response = Json 500 (Failure ''Download failed: No file was downloaded''),
                    invocations = [download_args E req], tmp_after = fs2, uncaught = None \<rparr>
              | Inr (file # others) \<Rightarrow>
                  (case rmSync (tmpdir E) fs2 (download_dir E) of
                     Inr fs3 \<Rightarrow>
                       \<lparr> response =
                           Download (path_join (path_join (tmpdir E) (download_dir E)) file) file,
                         invocations = [download_args E req], tmp_after = fs3,
                         uncaught = None \<rparr>
                   | Inl e \<Rightarrow>
                       \<lparr> response =
                           Download (path_join (path_join (tmpdir E) (download_dir E)) file) file,
                         invocations = [download_args E req], tmp_after = fs2,
                         uncaught = Some e \<rparr>)))"
  using assms by (simp add: download_def Let_def)


text \<open>
  C1. A download whose child exits with status zero and leaves the new directory empty:
  the request fails with status 500, and the directory that the handler created is still
  an entry of the temp root, empty. The only \<open>rmSync\<close> of the handler is in the callback
  of \<open>res.download\<close>, which this path does not reach. The claim says the directory is
  removed.
\<close>

theorem download_no_file_leaves_directory:
  assumes "truthy_param (q_url req)" and "truthy_param (q_format_id req)"
    and "isValidYouTubeUrl E (q_url req) = Inr True"
    and "promise (runYtDlp (child_events E (download_args E req))) = Some (Resolved info)"
    and "readdirSync_in (tmpdir E)
           (child_writes E (download_args E req)
              (fs @ [(download_dir E,
                      \<lparr> mtimeMs = now, files = [], stat_fails = None, rm_fails = None \<rparr>)]))
           (download_dir E) = Inr []"
  shows "response (download E now req fs)
           = Json 500 (Failure ''Download failed: No file was downloaded'')
         \<and> download_dir E \<in> set (readdirSync (tmp_after (download E now req fs)))
         \<and> readdirSync_in (tmpdir E) (tmp_after (download E now req fs)) (download_dir E) = Inr []"
proof -
  let ?fs2 = "child_writes E (download_args E req)
                (fs @ [(download_dir E,
                        \<lparr> mtimeMs = now, files = [], stat_fails = None, rm_fails = None \<rparr>)])"
  have "download E now req fs =
      \<lparr> response = Json 500 (Failure ''Download failed: No file was downloaded''),
        invocations = [download_args E req], tmp_after = ?fs2, uncaught = None \<rparr>"
    using assms(4,5) by (simp add: download_valid [OF assms(1,2,3)] Let_def)
  moreover have "download_dir E \<in> set (readdirSync ?fs2)"
  proof -
    from assms(5) obtain e where "map_of ?fs2 (download_dir E) = Some e"
      by (auto simp: readdirSync_in_def split: option.splits)
    then have "(download_dir E, e) \<in> set ?fs2"
      by (rule map_of_SomeD)
    then show ?thesis
      by (force simp: readdirSync_def)
  qed
  ultimately show ?thesis
    using assms(5) by simp
qed

lemma env0_valid:
  "truthy_param (q_url req0)" "truthy_param (q_format_id req0)"
  "isValidYouTubeUrl env0 (q_url req0) = Inr True"
  by (simp_all add: req0_def env0_def)

theorem download_no_file_leaves_directory_witness:
  "truthy_param (q_url req0) \<and> truthy_param (q_format_id req0)
   \<and> isValidYouTubeUrl env0 (q_url req0) = Inr True
   \<and> promise (runYtDlp (child_events env0 (download_args env0 req0)))
       = Some (Resolved ''[download] 100%'')
   \<and> response (download env0 0 req0 [])
       = Json 500 (Failure ''Download failed: No file was downloaded'')
   \<and> download_dir env0 = ''dl-abc123''
   \<and> download_dir env0 \<in> set (readdirSync (tmp_after (download env0 0 req0 [])))
   \<and> readdirSync_in (tmpdir env0) (tmp_after (download env0 0 req0 [])) (download_dir env0)
       = Inr []"
proof -
  have d: "promise (runYtDlp (child_events env0 (download_args env0 req0)))
      = Some (Resolved ''[download] 100%'')"
    by (simp add: env0_def runYtDlp_def spawned_def settle_def)
  have e: "readdirSync_in (tmpdir env0)
      (child_writes env0 (download_args env0 req0)
         ([] @ [(download_dir env0,
                 \<lparr> mtimeMs = 0, files = [], stat_fails = None, rm_fails = None \<rparr>)]))
      (download_dir env0) = Inr []"
    by (simp add: env0_def readdirSync_in_def)
  have "download_dir env0 = ''dl-abc123''"
    by (simp add: download_dir_def env0_def)
  then show ?thesis
    using env0_valid d download_no_file_leaves_directory [OF env0_valid d e] by simp
qed




text \<open>
  C5. When the child closes before the timer fires, after any chunks of output: with exit
  code zero the promise is resolved with the concatenated standard output; with another
  exit code it is rejected with the concatenated standard error, or, when that is empty,
  with "Process exited with code" and the code. Later events do not change the outcome.
\<close>

theorem runYtDlp_exit_code:
  "(\<forall>e\<in>set ds. is_data e) \<longrightarrow>
     promise (runYtDlp (ds @ Close (Val 0) # rest)) = Some (Resolved (concat (map stdout_chunk ds)))
     \<and> (c \<noteq> 0 \<longrightarrow>
          promise (runYtDlp (ds @ Close (Val c) # rest)) =
            Some (Rejected (if concat (map stderr_chunk ds) = []
                            then ''Process exited with code '' @ show_int c
                            else concat (map stderr_chunk ds))))"
  by (simp add: runYtDlp_close)

theorem runYtDlp_exit_code_witness:
  "list_all is_data [Stdout ''{\"id\"'', Stderr ''WARNING'', Stdout '':1}'']
   \<and> promise (runYtDlp ([Stdout ''{\"id\"'', Stderr ''WARNING'', Stdout '':1}''] @ [Close (Val 0)]))
       = Some (Resolved ''{\"id\":1}'')
   \<and> promise (runYtDlp ([Stdout ''{\"id\"'', Stderr ''WARNING'', Stdout '':1}''] @ [Close (Val 1)]))
       = Some (Rejected ''WARNING'')
   \<and> promise (runYtDlp ([] @ [Close (Val 2)])) = Some (Rejected ''Process exited with code 2'')"
proof -
  have "show_int 2 = ''2''"
    by (simp add: show_int_def show_nat_small digit_def)
  then show ?thesis
    using runYtDlp_exit_code [of "[Stdout ''{\"id\"'', Stderr ''WARNING'', Stdout '':1}'']" "[]" 1]
      runYtDlp_exit_code [of "[]" "[]" 2]
    by simp
qed

text \<open>
  C6, as amended. When the timer fires before the child closes, the runner sends the kill
  signal and rejects at once with "Operation timed out", whatever happens later; the
  child has not closed at that moment, and the runner does not wait for it. The inspect
  and the download request then fail with status 500 and that message.
\<close>

theorem runYtDlp_timeout_rejects:
  "(\<forall>e\<in>set ds. is_data e) \<longrightarrow>
     promise (runYtDlp (ds @ Timeout # rest)) = Some (Rejected ''Operation timed out'')
     \<and> kill_sent (runYtDlp (ds @ [Timeout]))
     \<and> \<not> child_closed (runYtDlp (ds @ [Timeout]))
     \<and> (truthy_param (q_url req) \<and> isValidYouTubeUrl E (q_url req) = Inr True
          \<and> child_events E (inspect_args req) = ds @ Timeout # rest
         \<longrightarrow> response (inspect E req)
               = Json 500 (Failure ''Failed to inspect video: Operation timed out''))
     \<and> (truthy_param (q_url req) \<and> truthy_param (q_format_id req)
          \<and> isValidYouTubeUrl E (q_url req) = Inr True
          \<and> child_events E (download_args E req) = ds @ Timeout # rest
         \<longrightarrow> response (download E now req fs)
               = Json 500 (Failure ''Download failed: Operation timed out''))"
proof (intro impI)
  assume d: "\<forall>e\<in>set ds. is_data e"
  have p: "promise (runYtDlp (ds @ Timeout # rest)) = Some (Rejected ''Operation timed out'')"
    by (rule runYtDlp_timeout [OF d])
  have "response (inspect E req) = Json 500 (Failure ''Failed to inspect video: Operation timed out'')"
    if "truthy_param (q_url req)" "isValidYouTubeUrl E (q_url req) = Inr True"
      "child_events E (inspect_args req) = ds @ Timeout # rest"
    using that p by (simp add: inspect_def Let_def)
  moreover have "response (download E now req fs)
      = Json 500 (Failure ''Download failed: Operation timed out'')"
    if "truthy_param (q_url req)" "truthy_param (q_format_id req)"
      "isValidYouTubeUrl E (q_url req) = Inr True"
      "child_events E (download_args E req) = ds @ Timeout # rest"
    using that p by (simp add: download_valid Let_def)
  ultimately show "promise (runYtDlp (ds @ Timeout # rest)) = Some (Rejected ''Operation timed out'')
     \<and> kill_sent (runYtDlp (ds @ [Timeout]))
     \<and> \<not> child_closed (runYtDlp (ds @ [Timeout]))
     \<and> (truthy_param (q_url req) \<and> isValidYouTubeUrl E (q_url req) = Inr True
          \<and> child_events E (inspect_args req) = ds @ Timeout # rest
         \<longrightarrow> response (inspect E req)
               = Json 500 (Failure ''Failed to inspect video: Operation timed out''))
     \<and> (truthy_param (q_url req) \<and> truthy_param (q_format_id req)
          \<and> isValidYouTubeUrl E (q_url req) = Inr True
          \<and> child_events E (download_args E req) = ds @ Timeout # rest
         \<longrightarrow> response (download E now req fs)
               = Json 500 (Failure ''Download failed: Operation timed out''))"
    using p runYtDlp_timeout_state [OF d] by blast
qed

theorem runYtDlp_timeout_rejects_witness:
  "list_all is_data [Stdout ''[download] 10%'']
   \<and> truthy_param (q_url req0) \<and> truthy_param (q_format_id req0)
   \<and> isValidYouTubeUrl (env0\<lparr>child_events := \<lambda>args. [Stdout ''[download] 10%'', Timeout, Close Null]\<rparr>)
        (q_url req0) = Inr True
   \<and> promise (runYtDlp ([Stdout ''[download] 10%''] @ [Timeout, Close Null]))
       = Some (Rejected ''Operation timed out'')
   \<and> response (inspect (env0\<lparr>child_events := \<lambda>args. [Stdout ''[download] 10%'', Timeout, Close Null]\<rparr>) req0)
       = Json 500 (Failure ''Failed to inspect video: Operation timed out'')
   \<and> response (download (env0\<lparr>child_events := \<lambda>args. [Stdout ''[download] 10%'', Timeout, Close Null]\<rparr>) 0 req0 [])
       = Json 500 (Failure ''Download failed: Operation timed out'')"
proof -
  let ?E = "env0\<lparr>child_events := \<lambda>args. [Stdout ''[download] 10%'', Timeout, Close Null]\<rparr>"
  have v: "truthy_param (q_url req0)" "truthy_param (q_format_id req0)"
    "isValidYouTubeUrl ?E (q_url req0) = Inr True"
    by (simp_all add: req0_def env0_def)
  show ?thesis
    using v runYtDlp_timeout_rejects [of "[Stdout ''[download] 10%'']" "[Close Null]" req0 ?E 0 "[]"]
    by simp
qed

text \<open>
  The claim as first stated also says that no process outlives the invocation. The
  promise is rejected while the child has not closed, and a chunk of its output can still
  arrive afterwards.
\<close>

theorem runYtDlp_timeout_child_counterexample:
  "promise (runYtDlp [Timeout, Stdout ''[download] 11%''])
     = Some (Rejected ''Operation timed out'')
   \<and> \<not> child_closed (runYtDlp [Timeout, Stdout ''[download] 11%''])
   \<and> out (runYtDlp [Timeout, Stdout ''[download] 11%'']) = ''[download] 11%''"
  by (simp add: runYtDlp_def spawned_def settle_def)

text \<open>
  C7. When an entry whose name starts with \<open>dl-\<close> is in the listing and another process
  has removed it before its \<open>statSync\<close>, the sweep stops with an error (\<open>ENOENT\<close>): it
  does not complete. The claim says that missing entries are tolerated.
\<close>

theorem cleanupTempFiles_stat_race:
  "f \<in> set (readdirSync fs) \<and> prefix ''dl-'' f \<and> f \<notin> set (readdirSync (others fs))
   \<longrightarrow> (\<exists>e. cleanupTempFiles_among others tmp now fs = Inl e)"
proof (intro impI, elim conjE)
  assume "f \<in> set (readdirSync fs)" and "prefix ''dl-'' f"
    and gone: "f \<notin> set (readdirSync (others fs))"
  then have "f \<in> set (filter (prefix ''dl-'') (readdirSync fs))"
    by simp
  from sweep_missing [OF this gone]
  show "\<exists>e. cleanupTempFiles_among others tmp now fs = Inl e"
    by (simp only: cleanupTempFiles_among_def)
qed

theorem cleanupTempFiles_stat_race_witness:
  "''dl-abc123'' \<in> set (readdirSync [(''dl-abc123'', plain 0)])
   \<and> prefix ''dl-'' ''dl-abc123''
   \<and> ''dl-abc123'' \<notin> set (readdirSync (filter (\<lambda>(n, e). n \<noteq> ''dl-abc123'') [(''dl-abc123'', plain 0)]))
   \<and> cleanupTempFiles_among (filter (\<lambda>(n, e). n \<noteq> ''dl-abc123'')) ''/tmp'' 2000000
        [(''dl-abc123'', plain 0)] = Inl (Err ENOENT ''stat'' ''/tmp/dl-abc123'', [])
   \<and> (\<exists>e. cleanupTempFiles_among (filter (\<lambda>(n, e). n \<noteq> ''dl-abc123'')) ''/tmp'' 2000000
        [(''dl-abc123'', plain 0)] = Inl e)"
proof -
  have "cleanupTempFiles_among (filter (\<lambda>(n, e). n \<noteq> ''dl-abc123'')) ''/tmp'' 2000000
        [(''dl-abc123'', plain 0)] = Inl (Err ENOENT ''stat'' ''/tmp/dl-abc123'', [])"
    by (simp add: cleanupTempFiles_among_def readdirSync_def statSync_def path_join_def)
  moreover have "''dl-abc123'' \<in> set (readdirSync [(''dl-abc123'', plain 0)])"
    "''dl-abc123'' \<notin> set (readdirSync (filter (\<lambda>(n, e). n \<noteq> ''dl-abc123'') [(''dl-abc123'', plain 0)]))"
    by (simp_all add: readdirSync_def)
  ultimately show ?thesis
    using cleanupTempFiles_stat_race [of "''dl-abc123''" "[(''dl-abc123'', plain 0)]"
        "filter (\<lambda>(n, e). n \<noteq> ''dl-abc123'')" "''/tmp''" 2000000]
    by simp
qed

text \<open>
  At the deletion itself a missing entry is tolerated: \<open>rmSync\<close> with \<open>force\<close> leaves
  the temp root as it is.
\<close>

lemma rmSync_missing: "f \<notin> set (readdirSync fs) \<Longrightarrow> rmSync tmp fs f = Inr fs"
  by (simp add: rmSync_def readdirSync_def map_of_eq_None_iff [THEN iffD2])

text \<open>
  C8. With no other process at work, a temp root in which an entry with the prefix cannot
  be inspected, such as a link whose target is missing: \<open>fs.statSync\<close> throws, the sweep
  ends there, and every entry after it in the listing is left, also the entries whose
  name starts with \<open>dl-\<close> and whose age exceeds 30 minutes; the entries before it have
  been swept. The claim says that one sweep deletes exactly those entries, for every state
  of the temp root. It does so when \<open>fs.statSync\<close> and \<open>fs.rmSync\<close> fail on no entry with
  the prefix (lemma \<open>cleanupTempFiles_deletes_stale\<close>).
\<close>

theorem cleanupTempFiles_leaves_stale:
  "distinct (readdirSync (before @ (f, e) # after))
   \<and> prefix ''dl-'' f \<and> stat_fails e = Some c
   \<and> (\<forall>(n, e')\<in>set before. prefix ''dl-'' n \<longrightarrow> sweepable now e')
   \<longrightarrow> cleanupTempFiles tmp now (before @ (f, e) # after) =
         Inl (Err c ''stat'' (path_join tmp f),
              filter (\<lambda>ne. \<not> stale now ne) before @ (f, e) # after)"
  using cleanupTempFiles_stops [of before f e after c now tmp] by blast

theorem cleanupTempFiles_leaves_stale_witness:
  "distinct (readdirSync ([(''dl-new'', plain 1000000)] @ (''dl-link'', dangling) # [(''dl-old'', plain 0)]))
   \<and> prefix ''dl-'' ''dl-link'' \<and> stat_fails dangling = Some ENOENT
   \<and> list_all (\<lambda>(n, e'). \<not> prefix ''dl-'' n \<or> sweepable 2000000 e') [(''dl-new'', plain 1000000)]
   \<and> stale 2000000 (''dl-old'', plain 0)
   \<and> cleanupTempFiles ''/tmp'' 2000000
        ([(''dl-new'', plain 1000000)] @ (''dl-link'', dangling) # [(''dl-old'', plain 0)])
      = Inl (Err ENOENT ''stat'' ''/tmp/dl-link'',
             [(''dl-new'', plain 1000000), (''dl-link'', dangling), (''dl-old'', plain 0)])"
proof -
  have a: "distinct (readdirSync ([(''dl-new'', plain 1000000)] @ (''dl-link'', dangling)
      # [(''dl-old'', plain 0)]))"
    by (simp add: readdirSync_def)
  have b: "stat_fails dangling = Some ENOENT"
    by (simp add: dangling_def)
  have c: "sweepable 2000000 (plain 1000000)"
    by (simp add: sweepable_def plain_def)
  have d: "stale 2000000 (''dl-old'', plain 0)" "\<not> stale 2000000 (''dl-new'', plain 1000000)"
    by (simp_all add: stale_def plain_def)
  show ?thesis
    using a b c d
      cleanupTempFiles_leaves_stale [of "[(''dl-new'', plain 1000000)]" "''dl-link''" dangling
        "[(''dl-old'', plain 0)]" ENOENT 2000000 "''/tmp''"]
    by (simp add: path_join_def)
qed

end
